theory Spec2Isabelle
  imports Main "HOL-Library.Word" "HOL-Library.Code_Target_Nat"
begin

unbundle bit_operations_syntax

section \<open>Traffic statistics (TrafficStats)\<close>

text \<open>
  Go's \<open>int64\<close> counters are 64-bit words: \<open>+=\<close> wraps around.  \<open>time.Time\<close> values
  are instants read from the clock; the model takes the clock reading as an argument.

  The field \<open>sites\<close> is a Go map from host to \<open>*SiteStats\<close>.  A Go map can be \<open>nil\<close>
  and a pointer in it can be \<open>nil\<close>; both happen when \<open>load\<close> reads a snapshot file
  without a \<open>sites\<close> object or with a \<open>null\<close> entry.  So the map is an option (\<open>None\<close>
  is the \<open>nil\<close> map) and so is each pointer in it.  No two keys share a pointer.  A read
  of a \<open>nil\<close> map finds no key; an assignment to it, and a field access through a \<open>nil\<close>
  pointer, panic.
\<close>

type_synonym int64 = "64 word"
type_synonym time = nat

record SiteStats =
  Host :: string
  Upload :: int64
  Download :: int64
  Connections :: int64
  LastAccess :: time
  FirstAccess :: time

type_synonym site_map = "string \<rightharpoonup> SiteStats option"

record TrafficStats =
  sites :: "site_map option"
  storeDir :: string
  totalUpload :: int64
  totalDownload :: int64

datatype panic = NilMapAssignment | NilPointerDereference

text \<open>\<open>stats, ok := ts.sites[host]\<close>: \<open>None\<close> when \<open>ok\<close> is false.\<close>

definition lookupSite :: "TrafficStats \<Rightarrow> string \<Rightarrow> SiteStats option option" where
  "lookupSite ts host = (case sites ts of None \<Rightarrow> None | Some m \<Rightarrow> m host)"

text \<open>The decoded JSON snapshot that \<open>load\<close> reads, and that \<open>Save\<close> writes.\<close>

record Snapshot =
  snap_sites :: "site_map option"
  snap_total_upload :: int64
  snap_total_download :: int64

text \<open>\<open>load\<close>: \<open>file\<close> is \<open>None\<close> when the file is missing or does not parse.\<close>

definition load :: "TrafficStats \<Rightarrow> Snapshot option \<Rightarrow> TrafficStats" where
  "load ts file =
     (case file of
        None \<Rightarrow> ts
      | Some saved \<Rightarrow> ts\<lparr>sites := snap_sites saved,
                        totalUpload := snap_total_upload saved,
                        totalDownload := snap_total_download saved\<rparr>)"

definition NewTrafficStats :: "string \<Rightarrow> Snapshot option \<Rightarrow> TrafficStats" where
  "NewTrafficStats dir file =
     load \<lparr>sites = Some Map.empty, storeDir = dir, totalUpload = 0, totalDownload = 0\<rparr> file"

definition RecordConnection :: "TrafficStats \<Rightarrow> string \<Rightarrow> time \<Rightarrow> panic + TrafficStats" where
  "RecordConnection ts host now =
     (case lookupSite ts host of
        Some (Some stats) \<Rightarrow>
          Inr (ts\<lparr>sites := Some ((the (sites ts))(host \<mapsto>
                 Some (stats\<lparr>Connections := Connections stats + 1, LastAccess := now\<rparr>)))\<rparr>)
      | Some None \<Rightarrow> Inl NilPointerDereference
      | None \<Rightarrow>
          (case sites ts of
             None \<Rightarrow> Inl NilMapAssignment
           | Some m \<Rightarrow>
               Inr (ts\<lparr>sites := Some (m(host \<mapsto>
                      Some \<lparr>Host = host, Upload = 0, Download = 0, Connections = 1,
                            LastAccess = now, FirstAccess = now\<rparr>))\<rparr>)))"

definition RecordUpload :: "TrafficStats \<Rightarrow> string \<Rightarrow> int64 \<Rightarrow> time \<Rightarrow> panic + TrafficStats"
  where
  "RecordUpload ts host bytes now =
     (let ts' = ts\<lparr>totalUpload := totalUpload ts + bytes\<rparr>
      in case lookupSite ts' host of
           Some (Some stats) \<Rightarrow>
             Inr (ts'\<lparr>sites := Some ((the (sites ts'))(host \<mapsto>
                    Some (stats\<lparr>Upload := Upload stats + bytes, LastAccess := now\<rparr>)))\<rparr>)
         | Some None \<Rightarrow> Inl NilPointerDereference
         | None \<Rightarrow> Inr ts')"

definition RecordDownload :: "TrafficStats \<Rightarrow> string \<Rightarrow> int64 \<Rightarrow> time \<Rightarrow> panic + TrafficStats"
  where
  "RecordDownload ts host bytes now =
     (let ts' = ts\<lparr>totalDownload := totalDownload ts + bytes\<rparr>
      in case lookupSite ts' host of
           Some (Some stats) \<Rightarrow>
             Inr (ts'\<lparr>sites := Some ((the (sites ts'))(host \<mapsto>
                    Some (stats\<lparr>Download := Download stats + bytes, LastAccess := now\<rparr>)))\<rparr>)
         | Some None \<Rightarrow> Inl NilPointerDereference
         | None \<Rightarrow> Inr ts')"

text \<open>\<open>GetSiteStats\<close> returns a copy, or \<open>nil\<close> (\<open>None\<close>) for a host without entry.\<close>

definition GetSiteStats :: "TrafficStats \<Rightarrow> string \<Rightarrow> panic + SiteStats option" where
  "GetSiteStats ts host =
     (case lookupSite ts host of
        Some (Some stats) \<Rightarrow>
          Inr (Some \<lparr>Host = Host stats, Upload = Upload stats, Download = Download stats,
                     Connections = Connections stats, LastAccess = LastAccess stats,
                     FirstAccess = FirstAccess stats\<rparr>)
      | Some None \<Rightarrow> Inl NilPointerDereference
      | None \<Rightarrow> Inr None)"

definition GetTotalStats :: "TrafficStats \<Rightarrow> int64 \<times> int64" where
  "GetTotalStats ts = (totalUpload ts, totalDownload ts)"

definition Reset :: "TrafficStats \<Rightarrow> TrafficStats" where
  "Reset ts = ts\<lparr>sites := Some Map.empty, totalUpload := 0, totalDownload := 0\<rparr>"

definition minSaveThreshold :: int where
  "minSaveThreshold = 10 * 1024"

text \<open>
  \<open>Save\<close> keeps a site when \<open>stats.Upload + stats.Download >= minSaveThreshold\<close>, a signed
  comparison of the wrapped 64-bit sum, and writes the totals as they are.  The map it
  writes is made afresh, so it is never \<open>nil\<close>; a \<open>nil\<close> pointer in \<open>sites\<close> makes the
  loop panic.
\<close>

definition has_nil_entry :: "TrafficStats \<Rightarrow> bool" where
  "has_nil_entry ts = (\<exists>host. lookupSite ts host = Some None)"

definition Save :: "TrafficStats \<Rightarrow> panic + Snapshot" where
  "Save ts =
     (if has_nil_entry ts then Inl NilPointerDereference
      else
        Inr \<lparr>snap_sites = Some (\<lambda>host.
               case lookupSite ts host of
                 Some (Some stats) \<Rightarrow>
                   if sint (Upload stats + Download stats) \<ge> minSaveThreshold
                   then Some (Some stats) else None
               | _ \<Rightarrow> None),
             snap_total_upload = totalUpload ts,
             snap_total_download = totalDownload ts\<rparr>)"

text \<open>The sum of one counter over all entries of the map.\<close>

definition siteValue :: "(SiteStats \<Rightarrow> int64) \<Rightarrow> SiteStats option option \<Rightarrow> int64" where
  "siteValue f e = (case e of Some (Some stats) \<Rightarrow> f stats | _ \<Rightarrow> 0)"

definition siteSum :: "(SiteStats \<Rightarrow> int64) \<Rightarrow> TrafficStats \<Rightarrow> int64" where
  "siteSum f ts =
     (case sites ts of
        None \<Rightarrow> 0
      | Some m \<Rightarrow> (\<Sum>h\<in>dom m. siteValue f (m h)))"

text \<open>
  The invariant: the map is allocated, finite and holds no \<open>nil\<close> pointer, and each
  total equals the sum of its counter over the sites.
\<close>

definition allocated :: "TrafficStats \<Rightarrow> bool" where
  "allocated ts =
     (case sites ts of
        None \<Rightarrow> False
      | Some m \<Rightarrow> finite (dom m) \<and> Some None \<notin> range m)"

definition totals_match :: "TrafficStats \<Rightarrow> bool" where
  "totals_match ts \<longleftrightarrow>
     allocated ts \<and>
     totalUpload ts = siteSum Upload ts \<and>
     totalDownload ts = siteSum Download ts"

text \<open>The calls a session makes on the store, and a run of them in order.\<close>

datatype stat_op =
    OpConnection string time
  | OpUpload string int64 time
  | OpDownload string int64 time
  | OpReset

fun apply_stat_op :: "TrafficStats \<Rightarrow> stat_op \<Rightarrow> panic + TrafficStats" where
  "apply_stat_op ts (OpConnection h t) = RecordConnection ts h t"
| "apply_stat_op ts (OpUpload h n t) = RecordUpload ts h n t"
| "apply_stat_op ts (OpDownload h n t) = RecordDownload ts h n t"
| "apply_stat_op ts OpReset = Inr (Reset ts)"

fun run_stat_ops :: "TrafficStats \<Rightarrow> stat_op list \<Rightarrow> panic + TrafficStats" where
  "run_stat_ops ts [] = Inr ts"
| "run_stat_ops ts (x # xs) =
     (case apply_stat_op ts x of
        Inl p \<Rightarrow> Inl p
      | Inr ts' \<Rightarrow> run_stat_ops ts' xs)"

text \<open>A run in which every byte count is recorded for a host that has an entry by then.\<close>

fun has_entry :: "TrafficStats \<Rightarrow> stat_op \<Rightarrow> bool" where
  "has_entry ts (OpUpload h n t) = (lookupSite ts h \<noteq> None)"
| "has_entry ts (OpDownload h n t) = (lookupSite ts h \<noteq> None)"
| "has_entry ts _ = True"

fun entries_exist :: "TrafficStats \<Rightarrow> stat_op list \<Rightarrow> bool" where
  "entries_exist ts [] = True"
| "entries_exist ts (x # xs) =
     (has_entry ts x \<and>
      (case apply_stat_op ts x of
         Inl p \<Rightarrow> True
       | Inr ts' \<Rightarrow> entries_exist ts' xs))"

text \<open>The bytes and connections a run records for one host.\<close>

fun up_bytes :: "string \<Rightarrow> stat_op list \<Rightarrow> int64" where
  "up_bytes H [] = 0"
| "up_bytes H (OpUpload h n t # xs) = (if h = H then n else 0) + up_bytes H xs"
| "up_bytes H (_ # xs) = up_bytes H xs"

fun down_bytes :: "string \<Rightarrow> stat_op list \<Rightarrow> int64" where
  "down_bytes H [] = 0"
| "down_bytes H (OpDownload h n t # xs) = (if h = H then n else 0) + down_bytes H xs"
| "down_bytes H (_ # xs) = down_bytes H xs"

fun conn_count :: "string \<Rightarrow> stat_op list \<Rightarrow> int64" where
  "conn_count H [] = 0"
| "conn_count H (OpConnection h t # xs) = (if h = H then 1 else 0) + conn_count H xs"
| "conn_count H (_ # xs) = conn_count H xs"

text \<open>A store and a session on it, used to run the accounting on concrete numbers.\<close>

definition empty_store :: TrafficStats where
  "empty_store = NewTrafficStats ''.echplus'' None"

definition demo_ops :: "stat_op list" where
  "demo_ops = [OpConnection ''example.com'' 0,
               OpUpload ''example.com'' 100 1, OpDownload ''example.com'' 250 2,
               OpUpload ''example.com'' 20 3]"

text \<open>The snapshot decoded from the file \<open>{}\<close>: no \<open>sites\<close> object, totals 0.\<close>

definition empty_object_snapshot :: Snapshot where
  "empty_object_snapshot =
     \<lparr>snap_sites = None, snap_total_upload = 0, snap_total_download = 0\<rparr>"

text \<open>A session of 1 KiB on one host, the store it leaves and the snapshot of that store.\<close>

definition small_ops :: "stat_op list" where
  "small_ops = [OpConnection ''example.com'' 0, OpUpload ''example.com'' 1024 1]"

definition small_store :: TrafficStats where
  "small_store =
     \<lparr>sites = Some (Map.empty(''example.com'' \<mapsto>
                Some \<lparr>Host = ''example.com'', Upload = 1024, Download = 0, Connections = 1,
                      LastAccess = 1, FirstAccess = 0\<rparr>)),
      storeDir = ''.echplus'', totalUpload = 1024, totalDownload = 0\<rparr>"

definition small_snapshot :: Snapshot where
  "small_snapshot =
     \<lparr>snap_sites = Some Map.empty, snap_total_upload = 1024, snap_total_download = 0\<rparr>"

section \<open>Addresses and the standard library\<close>

text \<open>
  Go strings are byte sequences: \<open>string\<close> here.  \<open>net.IP\<close> is a byte slice of length 4
  or 16; \<open>nil\<close> is the empty list (no function used here returns an empty slice that is
  not \<open>nil\<close>).  \<open>To4\<close> and \<open>To16\<close> are the methods of package \<open>net\<close>.
\<close>

type_synonym byte = "8 word"
type_synonym IP = "byte list"

definition v4InV6Prefix :: "byte list" where
  "v4InV6Prefix = [0, 0, 0, 0, 0, 0, 0, 0, 0, 0, 0xff, 0xff]"

definition To4 :: "IP \<Rightarrow> IP" where
  "To4 ip =
     (if length ip = 4 then ip
      else if length ip = 16 \<and> take 12 ip = v4InV6Prefix then drop 12 ip
      else [])"

definition To16 :: "IP \<Rightarrow> IP" where
  "To16 ip =
     (if length ip = 4 then v4InV6Prefix @ ip
      else if length ip = 16 then ip
      else [])"

record ipRange =
  start :: "32 word"
  end' :: "32 word"

record ipRangeV6 =
  start6 :: "byte list"
  end6 :: "byte list"

text \<open>
  The functions of Go's standard library and of the operating system that the proxy calls
  and whose code is not part of the repository.  Every definition below takes them as the
  argument \<open>lib\<close>, and every theorem holds for all of them.  \<open>ParseIP\<close> returns \<open>[]\<close>
  for \<open>nil\<close>; \<open>StdDecodeString\<close> returns \<open>None\<close> for an error; \<open>SscanfInt s\<close> is the
  value \<open>fmt.Sscanf(s, "%d", &n)\<close> leaves in an \<open>n\<close> that was 0; \<open>SplitHostPort\<close>
  returns \<open>None\<close> for an error; \<open>SortSlice\<close> is \<open>sort.Slice\<close> with the comparison
  of \<open>loadChinaIPList\<close>.
\<close>

record golib =
  ParseIP :: "string \<Rightarrow> IP"
  IPString :: "IP \<Rightarrow> string"
  IsLoopback :: "IP \<Rightarrow> bool"
  IsLinkLocalUnicast :: "IP \<Rightarrow> bool"
  IsLinkLocalMulticast :: "IP \<Rightarrow> bool"
  IsPrivate :: "IP \<Rightarrow> bool"
  TrimSpace :: "string \<Rightarrow> string"
  Fields :: "string \<Rightarrow> string list"
  ToLower :: "string \<Rightarrow> string"
  SortSlice :: "ipRange list \<Rightarrow> ipRange list"
  StdEncodeToString :: "byte list \<Rightarrow> string"
  StdDecodeString :: "string \<Rightarrow> byte list option"
  SscanfInt :: "string \<Rightarrow> int"
  SplitHostPort :: "string \<Rightarrow> (string \<times> string) option"

text \<open>Functions of package \<open>strings\<close> that are plain byte operations.\<close>

definition HasPrefix :: "string \<Rightarrow> string \<Rightarrow> bool" where
  "HasPrefix s p = (take (length p) s = p)"

text \<open>\<open>strings.Index(s, c)\<close> for a one-byte separator: \<open>None\<close> is Go's \<open>-1\<close>.\<close>

fun Index :: "string \<Rightarrow> char \<Rightarrow> nat option" where
  "Index [] c = None"
| "Index (x # xs) c = (if x = c then Some 0 else map_option Suc (Index xs c))"

fun LastIndex :: "string \<Rightarrow> char \<Rightarrow> nat option" where
  "LastIndex [] c = None"
| "LastIndex (x # xs) c =
     (case LastIndex xs c of
        Some i \<Rightarrow> Some (Suc i)
      | None \<Rightarrow> if x = c then Some 0 else None)"

definition Contains :: "string \<Rightarrow> char \<Rightarrow> bool" where
  "Contains s c = (Index s c \<noteq> None)"

section \<open>The China IP database and the routing decision\<close>

definition ipToUint32 :: "IP \<Rightarrow> 32 word" where
  "ipToUint32 ip0 =
     (let ip = To4 ip0
      in if ip = [] then 0
         else push_bit 24 (ucast (ip ! 0)) OR push_bit 16 (ucast (ip ! 1)) OR
              push_bit 8 (ucast (ip ! 2)) OR ucast (ip ! 3))"

text \<open>\<open>compareIPv6\<close> walks two 16-byte arrays from index 0.\<close>

fun compareIPv6 :: "byte list \<Rightarrow> byte list \<Rightarrow> int" where
  "compareIPv6 (a # as) (b # bs) =
     (if a < b then -1 else if a > b then 1 else compareIPv6 as bs)"
| "compareIPv6 _ _ = 0"

text \<open>The two binary searches of \<open>isChinaIP\<close>, over \<open>left\<close> and \<open>right\<close>.\<close>

function searchV4 :: "ipRange list \<Rightarrow> 32 word \<Rightarrow> nat \<Rightarrow> nat \<Rightarrow> bool" where
  "searchV4 rs ipUint32 left right =
     (if left < right then
        (let mid = (left + right) div 2; r = rs ! mid
         in if ipUint32 < start r then searchV4 rs ipUint32 left mid
            else if ipUint32 > end' r then searchV4 rs ipUint32 (mid + 1) right
            else True)
      else False)"
  by pat_completeness auto
termination
  by (relation "measure (\<lambda>(rs, x, left, right). right - left)") auto

function searchV6 :: "ipRangeV6 list \<Rightarrow> byte list \<Rightarrow> nat \<Rightarrow> nat \<Rightarrow> bool" where
  "searchV6 rs ipArray left right =
     (if left < right then
        (let mid = (left + right) div 2; r = rs ! mid
         in if compareIPv6 ipArray (start6 r) < 0 then searchV6 rs ipArray left mid
            else if compareIPv6 ipArray (end6 r) > 0 then searchV6 rs ipArray (mid + 1) right
            else True)
      else False)"
  by pat_completeness auto
termination
  by (relation "measure (\<lambda>(rs, x, left, right). right - left)") auto

text \<open>
  \<open>Config\<close> and the fields of \<open>ProxyServer\<close> that hold data (the listener, the
  channels and the locks are left out).
\<close>

record Config =
  ListenAddr :: string
  ServerAddr :: string
  ServerIP :: string
  Token :: string
  DNSServer :: string
  ECHDomain :: string
  RoutingMode :: string
  StoreDir :: string

record ProxyServer =
  config :: Config
  running :: bool
  echList :: "byte list"
  chinaIPRanges :: "ipRange list"
  chinaIPV6Ranges :: "ipRangeV6 list"

definition RoutingModeGlobal :: string where "RoutingModeGlobal = ''global''"
definition RoutingModeBypassCN :: string where "RoutingModeBypassCN = ''bypass_cn''"
definition RoutingModeNone :: string where "RoutingModeNone = ''none''"

definition isChinaIP :: "golib \<Rightarrow> ProxyServer \<Rightarrow> string \<Rightarrow> bool" where
  "isChinaIP lib s ipStr =
     (let ip = ParseIP lib ipStr
      in if ip = [] then False
         else if To4 ip \<noteq> [] then
           (let ipUint32 = ipToUint32 ip
            in if ipUint32 = 0 then False
               else searchV4 (chinaIPRanges s) ipUint32 0 (length (chinaIPRanges s)))
         else
           (let ipBytes = To16 ip
            in if ipBytes = [] then False
               else searchV6 (chinaIPV6Ranges s) ipBytes 0 (length (chinaIPV6Ranges s))))"

definition isPrivateIPAddress :: "golib \<Rightarrow> IP \<Rightarrow> bool" where
  "isPrivateIPAddress lib ip =
     (if ip = [] then False
      else if IsLoopback lib ip \<or> IsLinkLocalUnicast lib ip \<or>
              IsLinkLocalMulticast lib ip \<or> IsPrivate lib ip then True
      else False)"

text \<open>
  \<open>net.LookupIP\<close> asks the system resolver.  Its answer at a call is an argument of the
  function that makes the call: \<open>None\<close> for an error, else the list of addresses.
  \<open>isPrivateIP\<close> makes one call and \<open>shouldBypassProxy\<close> a second one, so the latter
  takes two answers, \<open>lookup1\<close> for the call inside \<open>isPrivateIP\<close> and \<open>lookup2\<close> for
  its own.
\<close>

definition isPrivateIP :: "golib \<Rightarrow> string \<Rightarrow> IP list option \<Rightarrow> bool" where
  "isPrivateIP lib host lookup =
     (let ip = ParseIP lib host
      in if ip \<noteq> [] then isPrivateIPAddress lib ip
         else case lookup of
                None \<Rightarrow> False
              | Some ips \<Rightarrow>
                  if ips = [] then False
                  else list_all (isPrivateIPAddress lib) ips)"

definition shouldBypassProxy ::
  "golib \<Rightarrow> ProxyServer \<Rightarrow> string \<Rightarrow> IP list option \<Rightarrow> IP list option \<Rightarrow> bool" where
  "shouldBypassProxy lib s targetHost lookup1 lookup2 =
     (if RoutingMode (config s) = RoutingModeNone then True
      else if isPrivateIP lib targetHost lookup1 then True
      else if RoutingMode (config s) = RoutingModeGlobal then False
      else if RoutingMode (config s) = RoutingModeBypassCN then
        (if ParseIP lib targetHost \<noteq> [] then isChinaIP lib s targetHost
         else case lookup2 of
                None \<Rightarrow> False
              | Some ips \<Rightarrow> list_ex (\<lambda>ip. isChinaIP lib s (IPString lib ip)) ips)
      else False)"

text \<open>
  \<open>loadChinaIPList\<close> from the lines the scanner returns (the file is there and readable).
  A line that is empty, a comment, too short, unparsable, or whose range does not pass
  the test \<open>start > 0 && end > 0 && start <= end\<close> adds nothing.
\<close>

datatype load_error = IPListEmpty

definition parseRangeLine :: "golib \<Rightarrow> string \<Rightarrow> ipRange option" where
  "parseRangeLine lib text =
     (let line = TrimSpace lib text
      in if line = [] \<or> HasPrefix line ''#'' then None
         else
           (let parts = Fields lib line
            in if length parts < 2 then None
               else
                 (let startIP = ParseIP lib (parts ! 0);
                      endIP = ParseIP lib (parts ! 1)
                  in if startIP = [] \<or> endIP = [] then None
                     else
                       (let start = ipToUint32 startIP;
                            end = ipToUint32 endIP
                        in if start > 0 \<and> end > 0 \<and> start \<le> end
                           then Some \<lparr>start = start, end' = end\<rparr>
                           else None))))"

definition loadChinaIPList :: "golib \<Rightarrow> string list \<Rightarrow> load_error + ipRange list" where
  "loadChinaIPList lib lines =
     (let ranges = List.map_filter (parseRangeLine lib) lines
      in if ranges = [] then Inl IPListEmpty
         else Inr (SortSlice lib ranges))"

section \<open>A concrete standard library for the examples\<close>

text \<open>
  The examples below run the model on concrete inputs and need concrete library
  functions.  \<open>stdlib\<close> gives them for ASCII text: white space is the six ASCII space
  characters, \<open>ParseIP\<close> and \<open>IPString\<close> know the addresses the examples use, and the
  address classes are those of package \<open>net\<close>.
\<close>

definition isSpace :: "char \<Rightarrow> bool" where
  "isSpace c = (c \<in> set [CHR '' '', CHR 0x09, CHR 0x0A, CHR 0x0B, CHR 0x0C, CHR 0x0D])"

definition trimSpace :: "string \<Rightarrow> string" where
  "trimSpace s = rev (dropWhile isSpace (rev (dropWhile isSpace s)))"

fun fieldsFrom :: "string \<Rightarrow> string \<Rightarrow> string list" where
  "fieldsFrom cur [] = (if cur = [] then [] else [cur])"
| "fieldsFrom cur (c # cs) =
     (if isSpace c then (if cur = [] then fieldsFrom [] cs else cur # fieldsFrom [] cs)
      else fieldsFrom (cur @ [c]) cs)"

definition toLower :: "string \<Rightarrow> string" where
  "toLower s =
     map (\<lambda>c. if (65::nat) \<le> of_char c \<and> of_char c \<le> (90::nat)
               then char_of (of_char c + (32::nat)) else c) s"

definition mapped4 :: "byte \<Rightarrow> byte \<Rightarrow> byte \<Rightarrow> byte \<Rightarrow> IP" where
  "mapped4 a b c d = v4InV6Prefix @ [a, b, c, d]"

definition knownAddresses :: "(string \<times> IP) list" where
  "knownAddresses =
     [(''0.0.0.0'', mapped4 0 0 0 0),
      (''0.0.0.255'', mapped4 0 0 0 255),
      (''1.0.0.0'', mapped4 1 0 0 0),
      (''1.1.1.1'', mapped4 1 1 1 1),
      (''1.2.3.4'', mapped4 1 2 3 4),
      (''1.255.255.255'', mapped4 1 255 255 255),
      (''8.8.8.8'', mapped4 8 8 8 8),
      (''10.0.0.1'', mapped4 10 0 0 1),
      (''114.114.114.114'', mapped4 114 114 114 114),
      (''127.0.0.1'', mapped4 127 0 0 1),
      (''192.168.1.10'', mapped4 192 168 1 10),
      (''::1'', [0, 0, 0, 0, 0, 0, 0, 0, 0, 0, 0, 0, 0, 0, 0, 1])]"

definition parseIP :: "string \<Rightarrow> IP" where
  "parseIP s = (case map_of knownAddresses s of Some ip \<Rightarrow> ip | None \<Rightarrow> [])"

definition ipString :: "IP \<Rightarrow> string" where
  "ipString ip =
     (case map_of (map (\<lambda>(s, a). (a, s)) knownAddresses) (To16 ip) of
        Some s \<Rightarrow> s
      | None \<Rightarrow> ''?'')"

definition isLoopback :: "IP \<Rightarrow> bool" where
  "isLoopback ip =
     (if To4 ip \<noteq> [] then To4 ip ! 0 = 127
      else ip = [0, 0, 0, 0, 0, 0, 0, 0, 0, 0, 0, 0, 0, 0, 0, 1])"

definition isLinkLocalUnicast :: "IP \<Rightarrow> bool" where
  "isLinkLocalUnicast ip =
     (if To4 ip \<noteq> [] then To4 ip ! 0 = 169 \<and> To4 ip ! 1 = 254
      else length ip = 16 \<and> ip ! 0 = 0xfe \<and> (ip ! 1) AND 0xc0 = 0x80)"

definition isLinkLocalMulticast :: "IP \<Rightarrow> bool" where
  "isLinkLocalMulticast ip =
     (if To4 ip \<noteq> [] then To4 ip ! 0 = 224 \<and> To4 ip ! 1 = 0 \<and> To4 ip ! 2 = 0
      else length ip = 16 \<and> ip ! 0 = 0xff \<and> (ip ! 1) AND 0x0f = 0x02)"

definition isPrivate :: "IP \<Rightarrow> bool" where
  "isPrivate ip =
     (if To4 ip \<noteq> [] then
        To4 ip ! 0 = 10 \<or>
        (To4 ip ! 0 = 172 \<and> (To4 ip ! 1) AND 0xf0 = 16) \<or>
        (To4 ip ! 0 = 192 \<and> To4 ip ! 1 = 168)
      else length ip = 16 \<and> (ip ! 0) AND 0xfe = 0xfc)"

fun digitsValue :: "nat \<Rightarrow> string \<Rightarrow> nat" where
  "digitsValue acc [] = acc"
| "digitsValue acc (c # cs) =
     (if (48::nat) \<le> of_char c \<and> of_char c \<le> (57::nat)
      then digitsValue (10 * acc + (of_char c - 48)) cs
      else acc)"

definition sscanfInt :: "string \<Rightarrow> int" where
  "sscanfInt s =
     (case dropWhile isSpace s of
        [] \<Rightarrow> 0
      | c # cs \<Rightarrow>
          if c = CHR ''-'' then - int (digitsValue 0 cs)
          else if c = CHR ''+'' then int (digitsValue 0 cs)
          else int (digitsValue 0 (c # cs)))"

definition splitHostPort :: "string \<Rightarrow> (string \<times> string) option" where
  "splitHostPort s =
     (if HasPrefix s ''['' then
        (case Index s CHR '']'' of
           None \<Rightarrow> None
         | Some e \<Rightarrow>
             if take 1 (drop (e + 1) s) = '':'' \<and> \<not> Contains (drop (e + 2) s) CHR '':''
             then Some (take (e - 1) (drop 1 s), drop (e + 2) s)
             else None)
      else
        (case LastIndex s CHR '':'' of
           None \<Rightarrow> None
         | Some i \<Rightarrow>
             if Contains (take i s) CHR '':'' then None
             else Some (take i s, drop (i + 1) s)))"

text \<open>
  Base64 with the standard alphabet and padding, three bytes to four characters.
\<close>

definition encodeStd :: string where
  "encodeStd = ''ABCDEFGHIJKLMNOPQRSTUVWXYZabcdefghijklmnopqrstuvwxyz0123456789+/''"

definition b64char :: "nat \<Rightarrow> char" where
  "b64char i = encodeStd ! (i mod 64)"

fun base64Encode :: "byte list \<Rightarrow> string" where
  "base64Encode (a # b # c # rest) =
     (let n = unat a * 65536 + unat b * 256 + unat c
      in [b64char (n div 262144), b64char (n div 4096), b64char (n div 64), b64char n]
         @ base64Encode rest)"
| "base64Encode [a, b] =
     (let n = unat a * 65536 + unat b * 256
      in [b64char (n div 262144), b64char (n div 4096), b64char (n div 64), CHR ''='']) "
| "base64Encode [a] =
     (let n = unat a * 65536
      in [b64char (n div 262144), b64char (n div 4096), CHR ''='', CHR ''=''])"
| "base64Encode [] = []"

definition b64index :: "char \<Rightarrow> nat option" where
  "b64index c = map_of (zip encodeStd [0..<64]) c"

fun base64Decode :: "string \<Rightarrow> byte list option" where
  "base64Decode [] = Some []"
| "base64Decode (w # x # y # z # rest) =
     (case (b64index w, b64index x) of
        (Some i, Some j) \<Rightarrow>
          if y = CHR ''='' \<and> z = CHR ''='' \<and> rest = [] then
            Some [of_nat ((i * 64 + j) div 16)]
          else
            (case b64index y of
               None \<Rightarrow> None
             | Some k \<Rightarrow>
                 if z = CHR ''='' \<and> rest = [] then
                   Some [of_nat ((i * 4096 + j * 64 + k) div 1024),
                         of_nat ((i * 4096 + j * 64 + k) div 4)]
                 else
                   (case (b64index z, base64Decode rest) of
                      (Some l, Some bs) \<Rightarrow>
                        Some (of_nat ((i * 262144 + j * 4096 + k * 64 + l) div 65536) #
                              of_nat ((i * 262144 + j * 4096 + k * 64 + l) div 256) #
                              of_nat (i * 262144 + j * 4096 + k * 64 + l) # bs)
                    | _ \<Rightarrow> None))
      | _ \<Rightarrow> None)"
| "base64Decode _ = None"

definition stdlib :: golib where
  "stdlib =
     \<lparr>ParseIP = parseIP, IPString = ipString, IsLoopback = isLoopback,
      IsLinkLocalUnicast = isLinkLocalUnicast, IsLinkLocalMulticast = isLinkLocalMulticast,
      IsPrivate = isPrivate, TrimSpace = trimSpace, Fields = fieldsFrom [],
      ToLower = toLower, SortSlice = sort_key start,
      StdEncodeToString = base64Encode, StdDecodeString = base64Decode,
      SscanfInt = sscanfInt, SplitHostPort = splitHostPort\<rparr>"

text \<open>
  The routing rule in the specification's words: a target is private when it is a literal
  private, loopback or link-local address, or a name whose resolution succeeds with at
  least one address and with such addresses only.
\<close>

definition private_target :: "golib \<Rightarrow> string \<Rightarrow> IP list option \<Rightarrow> bool" where
  "private_target lib host lookup =
     (if ParseIP lib host \<noteq> [] then isPrivateIPAddress lib (ParseIP lib host)
      else case lookup of
             None \<Rightarrow> False
           | Some ips \<Rightarrow> ips \<noteq> [] \<and> list_all (isPrivateIPAddress lib) ips)"

text \<open>A line of the IPv4 list whose start or end address converts to 0.\<close>

definition converts_to_zero :: "golib \<Rightarrow> string \<Rightarrow> bool" where
  "converts_to_zero lib text =
     (let parts = Fields lib (TrimSpace lib text)
      in 2 \<le> length parts \<and>
         ParseIP lib (parts ! 0) \<noteq> [] \<and> ParseIP lib (parts ! 1) \<noteq> [] \<and>
         (ipToUint32 (ParseIP lib (parts ! 0)) = 0 \<or> ipToUint32 (ParseIP lib (parts ! 1)) = 0))"

text \<open>Example databases: the range 1.0.0.0 - 1.255.255.255, and a list file.\<close>

definition demo_config :: "string \<Rightarrow> Config" where
  "demo_config mode =
     \<lparr>ListenAddr = ''127.0.0.1:30000'', ServerAddr = ''relay.example.workers.dev:443'',
      ServerIP = [], Token = ''147258369'', DNSServer = ''dns.alidns.com/dns-query'',
      ECHDomain = ''cloudflare-ech.com'', RoutingMode = mode, StoreDir = ''.echplus''\<rparr>"

definition cn_routing :: "string \<Rightarrow> ProxyServer" where
  "cn_routing mode =
     \<lparr>config = demo_config mode, running = True, echList = [1],
      chinaIPRanges = [\<lparr>start = 0x01000000, end' = 0x01FFFFFF\<rparr>],
      chinaIPV6Ranges = []\<rparr>"

definition cn_list_file :: "string list" where
  "cn_list_file =
     [''# china ip list'',
      ''0.0.0.0 0.0.0.255'',
      '''',
      ''1.0.0.0 1.255.255.255'']"

definition zero_range_routing :: ProxyServer where
  "zero_range_routing =
     \<lparr>config = demo_config ''bypass_cn'', running = True, echList = [1],
      chinaIPRanges = [\<lparr>start = 0, end' = 255\<rparr>],
      chinaIPV6Ranges = []\<rparr>"

definition lan_answer :: "IP list option" where
  "lan_answer = Some [parseIP ''192.168.1.10'', parseIP ''10.0.0.1'']"

definition mixed_answer :: "IP list option" where
  "mixed_answer = Some [parseIP ''1.2.3.4'', parseIP ''114.114.114.114'']"

text \<open>
  The database in the specification's words: an address is in the database when some
  loaded range contains it.  The binary searches of \<open>isChinaIP\<close> rely on ranges that are
  sorted and pairwise disjoint; \<open>well_formed_db\<close> says so, together with what the types
  and the loader give: IPv6 bounds are 16 bytes long and no IPv4 range starts at 0.
\<close>

definition inRange4 :: "32 word \<Rightarrow> ipRange \<Rightarrow> bool" where
  "inRange4 x r = (start r \<le> x \<and> x \<le> end' r)"

text \<open>An IPv6 address as a number: its 16 bytes, most significant first.\<close>

fun ipv6Value :: "byte list \<Rightarrow> nat" where
  "ipv6Value [] = 0"
| "ipv6Value (b # bs) = unat b * 256 ^ length bs + ipv6Value bs"

definition inRange6 :: "byte list \<Rightarrow> ipRangeV6 \<Rightarrow> bool" where
  "inRange6 x r = (ipv6Value (start6 r) \<le> ipv6Value x \<and> ipv6Value x \<le> ipv6Value (end6 r))"

definition db_contains :: "golib \<Rightarrow> ProxyServer \<Rightarrow> string \<Rightarrow> bool" where
  "db_contains lib s ipStr =
     (let ip = ParseIP lib ipStr
      in if ip = [] then False
         else if To4 ip \<noteq> [] then list_ex (inRange4 (ipToUint32 ip)) (chinaIPRanges s)
         else To16 ip \<noteq> [] \<and> list_ex (inRange6 (To16 ip)) (chinaIPV6Ranges s))"

definition sortedDisjoint4 :: "ipRange list \<Rightarrow> bool" where
  "sortedDisjoint4 rs =
     (sorted_wrt (\<lambda>a b. end' a < start b) rs \<and> list_all (\<lambda>r. 0 < start r \<and> start r \<le> end' r) rs)"

definition sortedDisjoint6 :: "ipRangeV6 list \<Rightarrow> bool" where
  "sortedDisjoint6 rs =
     (sorted_wrt (\<lambda>a b. ipv6Value (end6 a) < ipv6Value (start6 b)) rs \<and>
      list_all (\<lambda>r. length (start6 r) = 16 \<and> length (end6 r) = 16 \<and>
                     ipv6Value (start6 r) \<le> ipv6Value (end6 r)) rs)"

definition well_formed_db :: "ProxyServer \<Rightarrow> bool" where
  "well_formed_db s = (sortedDisjoint4 (chinaIPRanges s) \<and> sortedDisjoint6 (chinaIPV6Ranges s))"

text \<open>
  Two more databases.  \<open>dual_routing\<close> holds two IPv4 ranges and the IPv6 range
  ::1 - ::ff.  \<open>overlapping_list_file\<close> is a list whose second line overlaps the other
  two; \<open>overlapping_routing\<close> holds what \<open>loadChinaIPList\<close> makes of it.
\<close>

definition dual_routing :: ProxyServer where
  "dual_routing =
     \<lparr>config = demo_config ''bypass_cn'', running = True, echList = [1],
      chinaIPRanges = [\<lparr>start = 0x01000000, end' = 0x01FFFFFF\<rparr>,
                       \<lparr>start = 0x72727200, end' = 0x727272FF\<rparr>],
      chinaIPV6Ranges = [\<lparr>start6 = [0, 0, 0, 0, 0, 0, 0, 0, 0, 0, 0, 0, 0, 0, 0, 1],
                          end6 = [0, 0, 0, 0, 0, 0, 0, 0, 0, 0, 0, 0, 0, 0, 0, 0xff]\<rparr>]\<rparr>"

definition overlapping_list_file :: "string list" where
  "overlapping_list_file =
     [''1.2.3.4 1.2.3.4'',
      ''1.0.0.0 192.168.1.10'',
      ''1.1.1.1 1.1.1.1'']"

definition overlapping_routing :: ProxyServer where
  "overlapping_routing =
     \<lparr>config = demo_config ''bypass_cn'', running = True, echList = [1],
      chinaIPRanges = [\<lparr>start = 0x01000000, end' = 0xC0A8010A\<rparr>,
                       \<lparr>start = 0x01010101, end' = 0x01010101\<rparr>,
                       \<lparr>start = 0x01020304, end' = 0x01020304\<rparr>],
      chinaIPV6Ranges = []\<rparr>"

section \<open>The relay server\<close>

subsection \<open>The upgrade handler\<close>









subsection \<open>The session\<close>

text \<open>
  A message from \<open>ws.ReadMessage\<close> is a text or a binary message with its bytes.
  What the session does is recorded as a list of effects, in order: the text messages it
  writes to the WebSocket, the dials, the writes to the target connection.
\<close>

datatype ws_message = TextMessage string | BinaryMessage string

datatype server_effect =
    WsWriteText string
  | Dial string
  | RemoteWrite string
  | RemoteClose
  | StartPump

text \<open>
  The network as the session meets it: \<open>DialError a\<close> is the error of dialing address
  \<open>a\<close> and \<open>WriteError b\<close> the error of writing \<open>b\<close> to the connection (\<open>None\<close>: no
  error).
\<close>

record server_env =
  DialError :: "string \<Rightarrow> string option"
  WriteError :: "string \<Rightarrow> string option"

text \<open>The session's variables: whether \<open>remoteConn\<close> is set.\<close>

record session =
  remoteConn :: bool

definition JoinHostPort :: "string \<Rightarrow> string \<Rightarrow> string" where
  "JoinHostPort host port =
     (if Contains host CHR '':'' then ''['' @ host @ '']:'' @ port
      else host @ '':'' @ port)"

definition parseAddress :: "string \<Rightarrow> string \<times> string" where
  "parseAddress addr =
     (if HasPrefix addr ''['' then
        (case Index addr CHR '']'' of
           None \<Rightarrow> (addr, [])
         | Some e \<Rightarrow>
             if length addr < e + 3 then (addr, [])
             else (take (e - 1) (drop 1 addr), drop (e + 2) addr))
      else
        (case LastIndex addr CHR '':'' of
           None \<Rightarrow> (addr, [])
         | Some sep \<Rightarrow> (take sep addr, drop (sep + 1) addr)))"

text \<open>\<open>connectToRemote\<close> returns its error (\<open>None\<close> for \<open>nil\<close>).\<close>

definition connectToRemote ::
  "server_env \<Rightarrow> session \<Rightarrow> string \<Rightarrow> string \<Rightarrow> string option \<times> session \<times> server_effect list"
  where
  "connectToRemote env st targetAddr firstFrame =
     (let (host, port) = parseAddress targetAddr
      in if host = [] \<or> port = [] then
           (Some (''invalid address: '' @ targetAddr), st, [])
         else
           (let a = JoinHostPort host port
            in case DialError env a of
                 Some err \<Rightarrow> (Some err, st, [Dial a])
               | None \<Rightarrow>
                   if firstFrame \<noteq> [] then
                     (case WriteError env firstFrame of
                        Some err \<Rightarrow>
                          (Some err, st, [Dial a, RemoteWrite firstFrame, RemoteClose])
                      | None \<Rightarrow>
                          (None, st\<lparr>remoteConn := True\<rparr>,
                           [Dial a, RemoteWrite firstFrame, WsWriteText ''CONNECTED'',
                            StartPump]))
                   else
                     (None, st\<lparr>remoteConn := True\<rparr>,
                      [Dial a, WsWriteText ''CONNECTED'', StartPump])))"

text \<open>
  One turn of the loop of \<open>handleSession\<close>, after a message was read and the session
  was found open: the \<open>switch\<close> on the message.  \<open>Continue\<close> goes on to the next
  \<open>ReadMessage\<close>; \<open>Return\<close> leaves \<open>handleSession\<close>.
\<close>

datatype flow = Continue | Return

definition handleMessage ::
  "server_env \<Rightarrow> session \<Rightarrow> ws_message \<Rightarrow> flow \<times> session \<times> server_effect list" where
  "handleMessage env st m =
     (case m of
        TextMessage msg \<Rightarrow>
          if HasPrefix msg ''CONNECT:'' then
            (let rest = drop 8 msg
             in case Index rest CHR ''|'' of
                  None \<Rightarrow> (Continue, st, [WsWriteText ''ERROR:invalid CONNECT format''])
                | Some sep \<Rightarrow>
                    (let addr = take sep rest;
                         firstFrame = drop (sep + 1) rest
                     in case connectToRemote env st addr firstFrame of
                          (Some err, st', effs) \<Rightarrow>
                            (Return, st', effs @ [WsWriteText (''ERROR:'' @ err)])
                        | (None, st', effs) \<Rightarrow> (Continue, st', effs)))
          else if HasPrefix msg ''DATA:'' then
            (Continue, st, if remoteConn st then [RemoteWrite (drop 5 msg)] else [])
          else if msg = ''CLOSE'' then (Return, st, [])
          else (Continue, st, [])
      | BinaryMessage data \<Rightarrow>
          (Continue, st, if remoteConn st then [RemoteWrite data] else []))"

text \<open>
  The loop.  Each item of the input is a message read and the value of \<open>closed\<close> seen
  after it; the end of the list is the read error that breaks the loop.
\<close>

fun sessionLoop ::
  "server_env \<Rightarrow> session \<Rightarrow> (ws_message \<times> bool) list \<Rightarrow> session \<times> server_effect list" where
  "sessionLoop env st [] = (st, [])"
| "sessionLoop env st ((m, closed) # ms) =
     (if closed then (st, [])
      else case handleMessage env st m of
             (Return, st', effs) \<Rightarrow> (st', effs)
           | (Continue, st', effs) \<Rightarrow>
               (case sessionLoop env st' ms of (st'', effs') \<Rightarrow> (st'', effs @ effs')))"

text \<open>The frame the client sends to open a stream (\<open>handleTunnel\<close>).\<close>

definition connectMsg :: "string \<Rightarrow> string \<Rightarrow> string" where
  "connectMsg target firstFrame = ''CONNECT:'' @ target @ ''|'' @ firstFrame"

text \<open>A network where every dial and every write succeeds.\<close>

definition open_net :: server_env where
  "open_net = \<lparr>DialError = (\<lambda>a. None), WriteError = (\<lambda>b. None)\<rparr>"

definition fresh_session :: session where
  "fresh_session = \<lparr>remoteConn = False\<rparr>"





section \<open>ECH configuration from DNS over HTTPS\<close>

text \<open>
  The DNS response is a byte slice; offsets are Go \<open>int\<close>s that only grow from 0 up to
  a little over the length of the slice, so \<open>nat\<close> holds them.  \<open>be16 bs off\<close> is
  \<open>binary.BigEndian.Uint16(bs[off : off+2])\<close>.
\<close>

definition typeHTTPS :: nat where "typeHTTPS = 65"

definition be16 :: "byte list \<Rightarrow> nat \<Rightarrow> nat" where
  "be16 bs off = unat (bs ! off) * 256 + unat (bs ! (off + 1))"

text \<open>
  The loop \<open>for offset < len(b) && b[offset] != 0 { offset += int(b[offset]) + 1 }\<close>,
  which walks over the labels of a name; it occurs three times in the parser.
\<close>

function skipLabels :: "byte list \<Rightarrow> nat \<Rightarrow> nat" where
  "skipLabels b offset =
     (if offset < length b \<and> b ! offset \<noteq> 0
      then skipLabels b (offset + unat (b ! offset) + 1)
      else offset)"
  by pat_completeness auto
termination
  by (relation "measure (\<lambda>(b, offset). length b - offset)") auto

text \<open>The loop over the SvcParams of an HTTPS record.\<close>

function svcParams :: "golib \<Rightarrow> byte list \<Rightarrow> nat \<Rightarrow> string" where
  "svcParams lib data offset =
     (if offset + 4 \<le> length data then
        (let key = be16 data offset;
             len = be16 data (offset + 2);
             offset1 = offset + 4
         in if offset1 + len > length data then []
            else
              (let value = take len (drop offset1 data);
                   offset2 = offset1 + len
               in if key = 5 then StdEncodeToString lib value
                  else svcParams lib data offset2))
      else [])"
  by pat_completeness auto
termination
  by (relation "measure (\<lambda>(lib, data, offset). length data - offset)") auto

definition parseHTTPSRecord :: "golib \<Rightarrow> byte list \<Rightarrow> string" where
  "parseHTTPSRecord lib data =
     (if length data < 2 then []
      else
        (let offset = 2;
             offset1 = (if offset < length data \<and> data ! offset = 0 then offset + 1
                        else skipLabels data offset + 1)
         in svcParams lib data offset1))"

text \<open>
  One turn of the loop over the answer records, up to the test of the record type: from
  \<open>offset\<close>, the start of a record, to its type, its data and the start of the next
  record.  \<open>None\<close> stands for the three \<open>break\<close>s (the response ends early).
\<close>

definition answerAt :: "byte list \<Rightarrow> nat \<Rightarrow> (nat \<times> byte list \<times> nat) option" where
  "answerAt response offset =
     (if offset \<ge> length response then None
      else
        (let offset1 = (if (response ! offset) AND 0xC0 = 0xC0 then offset + 2
                        else skipLabels response offset + 1)
         in if offset1 + 10 > length response then None
            else
              (let rrType = be16 response offset1;
                   offset2 = offset1 + 8;
                   dataLen = be16 response offset2;
                   offset3 = offset2 + 2
               in if offset3 + dataLen > length response then None
                  else Some (rrType, take dataLen (drop offset3 response),
                             offset3 + dataLen))))"

text \<open>
  The loop over the answer records: \<open>i\<close> counts them, \<open>offset\<close> is where the next one
  starts.  A \<open>break\<close> leaves the loop for the final \<open>return "", nil\<close>.
\<close>

function answers :: "golib \<Rightarrow> byte list \<Rightarrow> nat \<Rightarrow> nat \<Rightarrow> nat \<Rightarrow> string" where
  "answers lib response ancount i offset =
     (if i < ancount then
        (case answerAt response offset of
           None \<Rightarrow> []
         | Some (rrType, data, offset') \<Rightarrow>
             if rrType = typeHTTPS \<and> parseHTTPSRecord lib data \<noteq> []
             then parseHTTPSRecord lib data
             else answers lib response ancount (i + 1) offset')
      else [])"
  by pat_completeness auto
termination
  by (relation "measure (\<lambda>(lib, response, ancount, i, offset). ancount - i)") auto






section \<open>The client: start and dial\<close>








section \<open>The client: connections\<close>

text \<open>
  Times are nanoseconds.  What a connection handler does is recorded as a list of
  effects on the client socket \<open>conn\<close>, the statistics, the relay and the target.
  \<open>SetDeadline None\<close> is \<open>conn.SetDeadline(time.Time{})\<close>, which clears the deadline.
  \<open>RelayTunnel\<close> and \<open>RelayDirect\<close> mark the start of the two forwarding goroutines.
\<close>

definition Millisecond :: time where "Millisecond = 1000000"
definition Second :: time where "Second = 1000 * Millisecond"
definition connectionDeadline :: time where "connectionDeadline = 30 * Second"
definition readBufferSize :: nat where "readBufferSize = 32768"

definition modeSOCKS5 :: int where "modeSOCKS5 = 1"
definition modeHTTPConnect :: int where "modeHTTPConnect = 2"
definition modeHTTPProxy :: int where "modeHTTPProxy = 3"

definition CRLF :: string where "CRLF = [CHR 0x0D, CHR 0x0A]"

datatype client_effect =
    SetDeadline "time option"
  | SetReadDeadline "time option"
  | ConnWrite string
  | StatsConnection string
  | StatsUpload string int64
  | DialRelay
  | StartPing
  | WsWrite ws_message
  | DialTarget string
  | TargetWrite string
  | RelayTunnel
  | RelayDirect
  | UDPAssociate

datatype tunnel_error =
    RelayDialFailed string
  | WsWriteFailed string
  | WsReadFailed string
  | RelayRefused string
  | UnexpectedResponse string
  | ReplyWriteFailed string
  | DirectDialFailed string
  | TargetWriteFailed string

text \<open>
  What the world answers to one connection: the clock at the two calls of \<open>time.Now\<close>,
  the resolver's answers, the errors of the writes to the client, of the dial to the
  relay, of the writes to and the read from the WebSocket, of the dial and the writes to
  the target, and the bytes the client sends within the 100 ms of the early read.
\<close>

record client_env =
  now0 :: time
  now1 :: time
  privateLookup :: "IP list option"
  chinaLookup :: "IP list option"
  connWriteError :: "string \<Rightarrow> string option"
  relayDialError :: "string option"
  earlyBytes :: string
  wsWriteError :: "string option"
  wsAnswer :: "string + string"
  targetDialError :: "string \<Rightarrow> string option"
  targetWriteError :: "string \<Rightarrow> string option"

definition socks5Reply :: "nat \<Rightarrow> string" where
  "socks5Reply code =
     [CHR 0x05, char_of code, CHR 0x00, CHR 0x01,
      CHR 0x00, CHR 0x00, CHR 0x00, CHR 0x00, CHR 0x00, CHR 0x00]"

definition sendErrorResponse :: "int \<Rightarrow> client_effect list" where
  "sendErrorResponse mode =
     (if mode = modeSOCKS5 then [ConnWrite (socks5Reply 4)]
      else if mode = modeHTTPConnect \<or> mode = modeHTTPProxy
      then [ConnWrite (''HTTP/1.1 502 Bad Gateway'' @ CRLF @ CRLF)]
      else [])"

definition sendSuccessResponse :: "client_env \<Rightarrow> int \<Rightarrow> string option \<times> client_effect list"
  where
  "sendSuccessResponse env mode =
     (if mode = modeSOCKS5 then
        (connWriteError env (socks5Reply 0), [ConnWrite (socks5Reply 0)])
      else if mode = modeHTTPConnect then
        (connWriteError env (''HTTP/1.1 200 Connection Established'' @ CRLF @ CRLF),
         [ConnWrite (''HTTP/1.1 200 Connection Established'' @ CRLF @ CRLF)])
      else (None, []))"

definition handleDirectConnection ::
  "golib \<Rightarrow> client_env \<Rightarrow> string \<Rightarrow> int \<Rightarrow> string \<Rightarrow> string \<Rightarrow>
   tunnel_error option \<times> client_effect list" where
  "handleDirectConnection lib env target0 mode firstFrame targetHost =
     (let target = (case SplitHostPort lib target0 of
                      Some (host, port) \<Rightarrow> target0
                    | None \<Rightarrow>
                        JoinHostPort target0 (if mode = modeHTTPProxy then ''80'' else ''443''))
      in case targetDialError env target of
           Some err \<Rightarrow> (Some (DirectDialFailed err), DialTarget target # sendErrorResponse mode)
         | None \<Rightarrow>
             (case sendSuccessResponse env mode of
                (Some err, w) \<Rightarrow> (Some (ReplyWriteFailed err), DialTarget target # w)
              | (None, w) \<Rightarrow>
                  if firstFrame \<noteq> [] then
                    (case targetWriteError env firstFrame of
                       Some err \<Rightarrow>
                         (Some (TargetWriteFailed err),
                          DialTarget target # w @ [TargetWrite firstFrame])
                     | None \<Rightarrow>
                         (None,
                          DialTarget target # w @
                          [TargetWrite firstFrame,
                           StatsUpload targetHost (of_nat (length firstFrame)),
                           RelayDirect]))
                  else (None, DialTarget target # w @ [RelayDirect])))"

text \<open>
  \<open>handleTunnel\<close> in three parts: the early read of the first frame, the exchange with
  the relay up to the start of the forwarding, and the function itself.
\<close>

definition earlyFirstFrame :: "client_env \<Rightarrow> int \<Rightarrow> string \<Rightarrow> string \<times> client_effect list" where
  "earlyFirstFrame env mode firstFrame =
     (if firstFrame = [] \<and> mode = modeSOCKS5 then
        (take readBufferSize (earlyBytes env),
         [SetReadDeadline (Some (now1 env + 100 * Millisecond)), SetReadDeadline None])
      else (firstFrame, []))"

definition tunnelHandshake ::
  "client_env \<Rightarrow> string \<Rightarrow> int \<Rightarrow> string \<Rightarrow> string \<Rightarrow> tunnel_error option \<times> client_effect list"
  where
  "tunnelHandshake env target mode firstFrame targetHost =
     (let sent = [WsWrite (TextMessage (connectMsg target firstFrame))]
      in case wsWriteError env of
           Some err \<Rightarrow> (Some (WsWriteFailed err), sent @ sendErrorResponse mode)
         | None \<Rightarrow>
             (let up = (if firstFrame \<noteq> []
                        then [StatsUpload targetHost (of_nat (length firstFrame))] else [])
              in case wsAnswer env of
                   Inl err \<Rightarrow> (Some (WsReadFailed err), sent @ up @ sendErrorResponse mode)
                 | Inr response \<Rightarrow>
                     if HasPrefix response ''ERROR:'' then
                       (Some (RelayRefused response), sent @ up @ sendErrorResponse mode)
                     else if response \<noteq> ''CONNECTED'' then
                       (Some (UnexpectedResponse response), sent @ up @ sendErrorResponse mode)
                     else
                       (case sendSuccessResponse env mode of
                          (Some err, w) \<Rightarrow> (Some (ReplyWriteFailed err), sent @ up @ w)
                        | (None, w) \<Rightarrow> (None, sent @ up @ w @ [RelayTunnel]))))"

definition handleTunnel ::
  "golib \<Rightarrow> ProxyServer \<Rightarrow> client_env \<Rightarrow> string \<Rightarrow> int \<Rightarrow> string \<Rightarrow>
   tunnel_error option \<times> client_effect list" where
  "handleTunnel lib s env target mode firstFrame =
     (let targetHost = (case SplitHostPort lib target of
                          None \<Rightarrow> target
                        | Some (host, port) \<Rightarrow> host)
      in if shouldBypassProxy lib s targetHost (privateLookup env) (chinaLookup env) then
           (case handleDirectConnection lib env target mode firstFrame targetHost of
              (r, effs) \<Rightarrow> (r, StatsConnection targetHost # effs))
         else
           (case relayDialError env of
              Some err \<Rightarrow>
                (Some (RelayDialFailed err),
                 [StatsConnection targetHost, DialRelay] @ sendErrorResponse mode)
            | None \<Rightarrow>
                (case earlyFirstFrame env mode firstFrame of
                   (firstFrame', early) \<Rightarrow>
                     (case tunnelHandshake env target mode firstFrame' targetHost of
                        (r, effs) \<Rightarrow>
                          (r, [StatsConnection targetHost, DialRelay, StartPing,
                               SetDeadline None] @ early @ effs)))))"

text \<open>The deadlines of \<open>conn\<close> after a list of effects.\<close>

record deadlines =
  readDeadline :: "time option"
  writeDeadline :: "time option"

fun applyEffect :: "deadlines \<Rightarrow> client_effect \<Rightarrow> deadlines" where
  "applyEffect d (SetDeadline t) = \<lparr>readDeadline = t, writeDeadline = t\<rparr>"
| "applyEffect d (SetReadDeadline t) = d\<lparr>readDeadline := t\<rparr>"
| "applyEffect d _ = d"

definition deadlinesAfter :: "client_effect list \<Rightarrow> deadlines" where
  "deadlinesAfter effs = foldl applyEffect \<lparr>readDeadline = None, writeDeadline = None\<rparr> effs"

subsection \<open>Reading the request\<close>

text \<open>
  The bytes the client sends are a list; a read past its end is the read error.
  \<open>readFull n\<close> is \<open>io.ReadFull\<close> into a buffer of \<open>n\<close> bytes, \<open>ReadString\<close> is
  \<open>reader.ReadString('\\n')\<close>: both return what was read and what is left.
\<close>

definition readFull :: "nat \<Rightarrow> string \<Rightarrow> (string \<times> string) option" where
  "readFull n s = (if length s < n then None else Some (take n s, drop n s))"

fun ReadString :: "string \<Rightarrow> (string \<times> string) option" where
  "ReadString [] = None"
| "ReadString (c # cs) =
     (if c = CHR 0x0A then Some ([c], cs)
      else case ReadString cs of
             None \<Rightarrow> None
           | Some (line, rest) \<Rightarrow> Some (c # line, rest))"

definition TrimRight :: "string \<Rightarrow> string \<Rightarrow> string" where
  "TrimRight s cutset = rev (dropWhile (\<lambda>c. c \<in> set cutset) (rev s))"

definition byteOf :: "char \<Rightarrow> byte" where
  "byteOf c = of_nat (of_char c)"

text \<open>\<open>fmt.Sprintf("%d", n)\<close> for a number that is not negative.\<close>

function Itoa :: "nat \<Rightarrow> string" where
  "Itoa n = (if n < 10 then [char_of (48 + n)]
             else Itoa (n div 10) @ [char_of (48 + n mod 10)])"
  by pat_completeness auto
termination
  by (relation "measure id") auto

text \<open>
  A protocol handler ends by returning, by calling \<open>handleTunnel\<close> with a target, a mode
  and a first frame, or by calling \<open>handleUDPAssociate\<close>.
\<close>

datatype dispatch =
    Done
  | Tunnel string int string
  | UDP

subsection \<open>SOCKS5\<close>

text \<open>The address of the request, by address type: the host and the bytes left.\<close>

datatype socks_address =
    AddressReadError
  | AddressUnsupported
  | Address string string

definition socks5Address :: "golib \<Rightarrow> nat \<Rightarrow> string \<Rightarrow> socks_address" where
  "socks5Address lib atyp stream =
     (if atyp = 1 then
        (case readFull 4 stream of
           None \<Rightarrow> AddressReadError
         | Some (buf, rest) \<Rightarrow> Address (IPString lib (map byteOf buf)) rest)
      else if atyp = 3 then
        (case readFull 1 stream of
           None \<Rightarrow> AddressReadError
         | Some (buf, rest) \<Rightarrow>
             (case readFull (of_char (buf ! 0)) rest of
                None \<Rightarrow> AddressReadError
              | Some (domainBuf, rest') \<Rightarrow> Address domainBuf rest'))
      else if atyp = 4 then
        (case readFull 16 stream of
           None \<Rightarrow> AddressReadError
         | Some (buf, rest) \<Rightarrow> Address (IPString lib (map byteOf buf)) rest)
      else AddressUnsupported)"

text \<open>The request after \<open>VER CMD RSV ATYP\<close> was read.\<close>

definition socks5Request ::
  "golib \<Rightarrow> nat \<Rightarrow> nat \<Rightarrow> string \<Rightarrow> client_effect list \<times> dispatch" where
  "socks5Request lib command atyp stream =
     (case socks5Address lib atyp stream of
        AddressReadError \<Rightarrow> ([], Done)
      | AddressUnsupported \<Rightarrow> ([ConnWrite (socks5Reply 8)], Done)
      | Address host rest \<Rightarrow>
          (case readFull 2 rest of
             None \<Rightarrow> ([], Done)
           | Some (buf, rest') \<Rightarrow>
               (let port = of_char (buf ! 0) * 256 + of_char (buf ! 1)
                in if command = 1 then
                     ([], Tunnel (if atyp = 4 then ''['' @ host @ '']:'' @ Itoa port
                                  else host @ '':'' @ Itoa port)
                                 modeSOCKS5 [])
                   else if command = 3 then ([], UDP)
                   else ([ConnWrite (socks5Reply 7)], Done))))"

definition handleSOCKS5 ::
  "golib \<Rightarrow> client_env \<Rightarrow> char \<Rightarrow> string \<Rightarrow> client_effect list \<times> dispatch" where
  "handleSOCKS5 lib env firstByte stream =
     (if firstByte \<noteq> CHR 0x05 then ([], Done)
      else
        (case readFull 1 stream of
           None \<Rightarrow> ([], Done)
         | Some (buf, s1) \<Rightarrow>
             (case readFull (of_char (buf ! 0)) s1 of
                None \<Rightarrow> ([], Done)
              | Some (methods, s2) \<Rightarrow>
                  if connWriteError env [CHR 0x05, CHR 0x00] \<noteq> None
                  then ([ConnWrite [CHR 0x05, CHR 0x00]], Done)
                  else
                    (case readFull 4 s2 of
                       None \<Rightarrow> ([ConnWrite [CHR 0x05, CHR 0x00]], Done)
                     | Some (req, s3) \<Rightarrow>
                         if req ! 0 \<noteq> CHR 0x05
                         then ([ConnWrite [CHR 0x05, CHR 0x00]], Done)
                         else
                           (case socks5Request lib (of_char (req ! 1)) (of_char (req ! 3)) s3 of
                              (effs, next) \<Rightarrow>
                                (ConnWrite [CHR 0x05, CHR 0x00] # effs, next))))))"

subsection \<open>HTTP\<close>

lemma ReadString_shorter: "ReadString s = Some (line, rest) \<Longrightarrow> length rest < length s"
  by (induction s arbitrary: line) (auto split: if_splits option.splits)

text \<open>
  The loop that reads the header lines up to the empty line: the lines, each without
  its trailing CR and LF, and what is left of the reader.
\<close>

function readHeaderLines :: "string \<Rightarrow> (string list \<times> string) option" where
  "readHeaderLines s =
     (case ReadString s of
        None \<Rightarrow> None
      | Some (line0, rest) \<Rightarrow>
          if TrimRight line0 CRLF = [] then Some ([], rest)
          else (case readHeaderLines rest of
                  None \<Rightarrow> None
                | Some (lines, rest') \<Rightarrow> Some (TrimRight line0 CRLF # lines, rest')))"
  by pat_completeness auto
termination
  by (relation "measure length") (auto dest: ReadString_shorter)

text \<open>
  The map \<open>headers\<close>, filled line by line in the same loop; \<open>headerValue m k\<close> is Go's
  \<open>m[k]\<close>, the empty string for a key that is absent.
\<close>

definition headerEntry :: "golib \<Rightarrow> (string \<rightharpoonup> string) \<Rightarrow> string \<Rightarrow> (string \<rightharpoonup> string)" where
  "headerEntry lib m line =
     (case Index line CHR '':'' of
        None \<Rightarrow> m
      | Some idx \<Rightarrow>
          if idx > 0
          then m(ToLower lib (TrimSpace lib (take idx line)) \<mapsto> TrimSpace lib (drop (idx + 1) line))
          else m)"

definition headersOf :: "golib \<Rightarrow> string list \<Rightarrow> (string \<rightharpoonup> string)" where
  "headersOf lib headerLines = foldl (headerEntry lib) Map.empty headerLines"

definition headerValue :: "(string \<rightharpoonup> string) \<Rightarrow> string \<Rightarrow> string" where
  "headerValue m k = (case m k of None \<Rightarrow> [] | Some v \<Rightarrow> v)"

definition proxyMethods :: "string list" where
  "proxyMethods =
     [''GET'', ''POST'', ''PUT'', ''DELETE'', ''HEAD'', ''OPTIONS'', ''PATCH'', ''TRACE'']"

text \<open>The target and the path of a proxy request, before the default port.\<close>

definition proxyTarget :: "(string \<rightharpoonup> string) \<Rightarrow> string \<Rightarrow> string \<times> string" where
  "proxyTarget headers requestURL =
     (if HasPrefix requestURL ''http://'' then
        (let urlWithoutScheme = drop 7 requestURL
         in case Index urlWithoutScheme CHR ''/'' of
              None \<Rightarrow> (urlWithoutScheme, ''/'')
            | Some idx \<Rightarrow>
                if idx > 0 then (take idx urlWithoutScheme, drop idx urlWithoutScheme)
                else (urlWithoutScheme, ''/''))
      else (headerValue headers ''host'', requestURL))"

text \<open>\<open>strings.ToLower(strings.TrimSpace(strings.Split(line, ":")[0]))\<close>.\<close>

definition keyLower :: "golib \<Rightarrow> string \<Rightarrow> string" where
  "keyLower lib line =
     ToLower lib (TrimSpace lib (case Index line CHR '':'' of
                                   None \<Rightarrow> line
                                 | Some i \<Rightarrow> take i line))"

definition keptHeader :: "golib \<Rightarrow> string \<Rightarrow> bool" where
  "keptHeader lib line =
     (keyLower lib line \<noteq> ''proxy-connection'' \<and> keyLower lib line \<noteq> ''proxy-authorization'')"

text \<open>What \<open>requestBuilder\<close> holds before the body.\<close>

definition requestHead :: "golib \<Rightarrow> string \<Rightarrow> string \<Rightarrow> string \<Rightarrow> string list \<Rightarrow> string" where
  "requestHead lib method path httpVersion headerLines =
     method @ '' '' @ path @ '' '' @ httpVersion @ CRLF @
     concat (map (\<lambda>line. line @ CRLF) (filter (keptHeader lib) headerLines)) @
     CRLF"

definition requestBody :: "golib \<Rightarrow> (string \<rightharpoonup> string) \<Rightarrow> string \<Rightarrow> string" where
  "requestBody lib headers reader =
     (let contentLength = headerValue headers ''content-length''
      in if contentLength \<noteq> [] then
           (let len = SscanfInt lib contentLength
            in if len > 0 \<and> len < 10 * 1024 * 1024 then
                 (case readFull (nat len) reader of
                    Some (body, rest) \<Rightarrow> body
                  | None \<Rightarrow> [])
               else [])
         else [])"

text \<open>\<open>handleHTTP\<close>: the \<open>switch\<close> on the method, and the function itself.\<close>

definition httpRequest ::
  "golib \<Rightarrow> string \<Rightarrow> string \<Rightarrow> string \<Rightarrow> string list \<Rightarrow> string \<Rightarrow> client_effect list \<times> dispatch"
  where
  "httpRequest lib method requestURL httpVersion headerLines reader =
     (if method = ''CONNECT'' then ([], Tunnel requestURL modeHTTPConnect [])
      else if method \<in> set proxyMethods then
        (let headers = headersOf lib headerLines;
             target = fst (proxyTarget headers requestURL);
             path = snd (proxyTarget headers requestURL)
         in if target = [] then
              ([ConnWrite (''HTTP/1.1 400 Bad Request'' @ CRLF @ CRLF)], Done)
            else
              ([], Tunnel (if Contains target CHR '':'' then target else target @ '':80'')
                          modeHTTPProxy
                          (requestHead lib method path httpVersion headerLines @
                           requestBody lib headers reader)))
      else ([ConnWrite (''HTTP/1.1 405 Method Not Allowed'' @ CRLF @ CRLF)], Done))"

definition handleHTTP :: "golib \<Rightarrow> string \<Rightarrow> client_effect list \<times> dispatch" where
  "handleHTTP lib stream =
     (case ReadString stream of
        None \<Rightarrow> ([], Done)
      | Some (requestLine, s1) \<Rightarrow>
          (let parts = Fields lib requestLine
           in if length parts < 3 then ([], Done)
              else
                (case readHeaderLines s1 of
                   None \<Rightarrow> ([], Done)
                 | Some (headerLines, s2) \<Rightarrow>
                     httpRequest lib (parts ! 0) (parts ! 1) (parts ! 2) headerLines s2)))"

subsection \<open>Accepted connections\<close>

text \<open>
  \<open>handleConnection\<close> sets the deadline, reads one byte and hands the connection to the
  protocol handler, which sees that byte again (\<open>protocolSwitch\<close> is its \<open>switch\<close> on
  the byte); \<open>handleUDPAssociate\<close> is left as the effect \<open>UDPAssociate\<close>.
\<close>

definition protocolSwitch ::
  "golib \<Rightarrow> client_env \<Rightarrow> char \<Rightarrow> string \<Rightarrow> client_effect list \<times> dispatch" where
  "protocolSwitch lib env b rest =
     (if b = CHR 0x05 then handleSOCKS5 lib env b rest
      else if b \<in> set ''CGPHDOT'' then handleHTTP lib (b # rest)
      else ([], Done))"

definition handleConnection ::
  "golib \<Rightarrow> ProxyServer \<Rightarrow> client_env \<Rightarrow> string \<Rightarrow> tunnel_error option \<times> client_effect list"
  where
  "handleConnection lib s env stream =
     (let armed = SetDeadline (Some (now0 env + connectionDeadline))
      in case stream of
           [] \<Rightarrow> (None, [armed])
         | b # rest \<Rightarrow>
             (case protocolSwitch lib env b rest of
                (effs, Tunnel target mode firstFrame) \<Rightarrow>
                  (case handleTunnel lib s env target mode firstFrame of
                     (r, effs') \<Rightarrow> (r, armed # effs @ effs'))
              | (effs, UDP) \<Rightarrow> (None, armed # effs @ [UDPAssociate])
              | (effs, Done) \<Rightarrow> (None, armed # effs)))"

text \<open>Example connections: a world where every dial and write succeeds.\<close>

definition calm :: client_env where
  "calm =
     \<lparr>now0 = 1000 * Second, now1 = 1001 * Second,
      privateLookup = None, chinaLookup = None,
      connWriteError = (\<lambda>b. None), relayDialError = None,
      earlyBytes = ''hello'', wsWriteError = None, wsAnswer = Inr ''CONNECTED'',
      targetDialError = (\<lambda>a. None), targetWriteError = (\<lambda>b. None)\<rparr>"

definition socks5_connect_example :: string where
  "socks5_connect_example =
     [CHR 0x05, CHR 0x01, CHR 0x00,
      CHR 0x05, CHR 0x01, CHR 0x00, CHR 0x03, CHR 0x0B] @ ''example.com'' @
     [CHR 0x01, CHR 0xBB]"

definition http_get_example :: string where
  "http_get_example =
     ''GET http://h/p HTTP/1.1'' @ CRLF @ ''Host: h'' @ CRLF @
     ''Proxy-Connection: keep-alive'' @ CRLF @ CRLF"

definition http_get_ipv6 :: string where
  "http_get_ipv6 = ''GET http://[::1]/ HTTP/1.1'' @ CRLF @ ''Host: [::1]'' @ CRLF @ CRLF"

definition http_post_example :: string where
  "http_post_example =
     ''POST http://h:8080/submit HTTP/1.1'' @ CRLF @ ''Host: h:8080'' @ CRLF @
     ''Proxy-Authorization: Basic eDp5'' @ CRLF @ ''Content-Length: 5'' @ CRLF @ CRLF @
     ''a=b&c''"

section \<open>Example data\<close>




definition dns_alpn_only_answer :: "byte list" where
  "dns_alpn_only_answer =
     [0xC0, 0x0C, 0, 65, 0, 1, 0, 0, 1, 0x2c, 0, 10,
      0, 1, 0, 0, 1, 0, 3, 2, 0x68, 0x32]"



text \<open>The effects that set or clear a deadline of the client socket.\<close>

fun deadline_effect :: "client_effect \<Rightarrow> bool" where
  "deadline_effect (SetDeadline t) = True"
| "deadline_effect (SetReadDeadline t) = True"
| "deadline_effect _ = False"

section \<open>Well-formed DNS responses\<close>


























section \<open>Theorems: traffic statistics\<close>

lemma siteValue_entry: "siteValue f (Some (Some stats)) = f stats"
  by (simp add: siteValue_def)

lemma sum_change_one:
  fixes g g' :: "'a \<Rightarrow> int64"
  assumes "finite A" "h \<in> A" "\<And>x. x \<in> A \<Longrightarrow> x \<noteq> h \<Longrightarrow> g x = g' x"
  shows "sum g A = sum g' A - g' h + g h"
proof -
  have "sum g A = g h + sum g (A - {h})" using assms by (simp add: sum.remove)
  moreover have "sum g' A = g' h + sum g' (A - {h})" using assms by (simp add: sum.remove)
  moreover have "sum g (A - {h}) = sum g' (A - {h})" using assms by (intro sum.cong) auto
  ultimately show ?thesis by simp
qed

lemma siteSum_insert:
  assumes "finite (dom m)" "m h = None"
  shows "(\<Sum>x\<in>insert h (dom m). siteValue f (if x = h then Some e else m x)) =
           siteValue f (Some e) + (\<Sum>x\<in>dom m. siteValue f (m x))"
proof -
  have nin: "h \<notin> dom m" using assms by (simp add: domIff)
  have "(\<Sum>x\<in>dom m. siteValue f (if x = h then Some e else m x)) =
        (\<Sum>x\<in>dom m. siteValue f (m x))"
    using nin by (intro sum.cong) auto
  then show ?thesis using assms nin by simp
qed

lemma siteSum_update:
  assumes "finite (dom m)" "m h = Some e0"
  shows "(\<Sum>x\<in>insert h (dom m). siteValue f (if x = h then Some e else m x)) =
           (\<Sum>x\<in>dom m. siteValue f (m x)) - siteValue f (Some e0) + siteValue f (Some e)"
proof -
  have hd: "h \<in> dom m" using assms by (simp add: domI)
  then have i: "insert h (dom m) = dom m" by auto
  show ?thesis
    unfolding i
    using sum_change_one[of "dom m" h "\<lambda>x. siteValue f (if x = h then Some e else m x)"
            "\<lambda>x. siteValue f (m x)"] assms hd
    by simp
qed

lemma entry_not_nil: "Some None \<notin> range m \<Longrightarrow> m h = Some e \<Longrightarrow> \<exists>stats. e = Some stats"
  by (metis not_Some_eq rangeI)

lemma allocated_update:
  assumes "sites ts = Some m" "finite (dom m)" "Some None \<notin> range m"
  shows "allocated (ts\<lparr>sites := Some (m(h \<mapsto> Some stats))\<rparr>)"
  using assms by (auto simp: allocated_def image_iff)

lemma totals_match_RecordConnection:
  assumes "totals_match ts"
  shows "\<exists>ts'. RecordConnection ts h t = Inr ts' \<and> totals_match ts'"
proof -
  from assms obtain m where m: "sites ts = Some m" "finite (dom m)" "Some None \<notin> range m"
    by (auto simp: totals_match_def allocated_def split: option.splits)
  from assms have tot: "totalUpload ts = (\<Sum>x\<in>dom m. siteValue Upload (m x))"
                       "totalDownload ts = (\<Sum>x\<in>dom m. siteValue Download (m x))"
    using m by (simp_all add: totals_match_def siteSum_def)
  show ?thesis
  proof (cases "m h")
    case None
    define new where "new = \<lparr>Host = h, Upload = 0, Download = 0, Connections = 1,
                              LastAccess = t, FirstAccess = t\<rparr>"
    have r: "RecordConnection ts h t = Inr (ts\<lparr>sites := Some (m(h \<mapsto> Some new))\<rparr>)"
      using m None by (simp add: RecordConnection_def lookupSite_def new_def)
    have "totals_match (ts\<lparr>sites := Some (m(h \<mapsto> Some new))\<rparr>)"
      using allocated_update[OF m, of h new] tot
      by (simp add: totals_match_def siteSum_def siteSum_insert[OF m(2) None]
            siteValue_entry new_def)
    with r show ?thesis by blast
  next
    case (Some e)
    then obtain stats where e: "m h = Some (Some stats)"
      using entry_not_nil[OF m(3)] by blast
    define new where "new = stats\<lparr>Connections := Connections stats + 1, LastAccess := t\<rparr>"
    have r: "RecordConnection ts h t = Inr (ts\<lparr>sites := Some (m(h \<mapsto> Some new))\<rparr>)"
      using m e by (simp add: RecordConnection_def lookupSite_def new_def)
    have "totals_match (ts\<lparr>sites := Some (m(h \<mapsto> Some new))\<rparr>)"
      using allocated_update[OF m, of h new] tot
      by (simp add: totals_match_def siteSum_def siteSum_update[OF m(2) e]
            siteValue_entry new_def)
    with r show ?thesis by blast
  qed
qed

lemma totals_match_RecordUpload:
  assumes "totals_match ts" "lookupSite ts h \<noteq> None"
  shows "\<exists>ts'. RecordUpload ts h n t = Inr ts' \<and> totals_match ts'"
proof -
  from assms obtain m where m: "sites ts = Some m" "finite (dom m)" "Some None \<notin> range m"
    by (auto simp: totals_match_def allocated_def split: option.splits)
  from assms have tot: "totalUpload ts = (\<Sum>x\<in>dom m. siteValue Upload (m x))"
                       "totalDownload ts = (\<Sum>x\<in>dom m. siteValue Download (m x))"
    using m by (simp_all add: totals_match_def siteSum_def)
  from assms(2) m obtain e0 where "m h = Some e0" by (auto simp: lookupSite_def)
  then obtain stats where e: "m h = Some (Some stats)"
    using entry_not_nil[OF m(3)] by blast
  define new where "new = stats\<lparr>Upload := Upload stats + n, LastAccess := t\<rparr>"
  define ts1 where "ts1 = ts\<lparr>totalUpload := totalUpload ts + n\<rparr>"
  have m1: "sites ts1 = Some m" using m by (simp add: ts1_def)
  have r: "RecordUpload ts h n t = Inr (ts1\<lparr>sites := Some (m(h \<mapsto> Some new))\<rparr>)"
    using m e by (simp add: RecordUpload_def Let_def lookupSite_def new_def ts1_def)
  have "totals_match (ts1\<lparr>sites := Some (m(h \<mapsto> Some new))\<rparr>)"
    using allocated_update[OF m1 m(2) m(3), of h new] tot
    by (simp add: totals_match_def siteSum_def siteSum_update[OF m(2) e]
          siteValue_entry new_def ts1_def)
  with r show ?thesis by blast
qed

lemma totals_match_RecordDownload:
  assumes "totals_match ts" "lookupSite ts h \<noteq> None"
  shows "\<exists>ts'. RecordDownload ts h n t = Inr ts' \<and> totals_match ts'"
proof -
  from assms obtain m where m: "sites ts = Some m" "finite (dom m)" "Some None \<notin> range m"
    by (auto simp: totals_match_def allocated_def split: option.splits)
  from assms have tot: "totalUpload ts = (\<Sum>x\<in>dom m. siteValue Upload (m x))"
                       "totalDownload ts = (\<Sum>x\<in>dom m. siteValue Download (m x))"
    using m by (simp_all add: totals_match_def siteSum_def)
  from assms(2) m obtain e0 where "m h = Some e0" by (auto simp: lookupSite_def)
  then obtain stats where e: "m h = Some (Some stats)"
    using entry_not_nil[OF m(3)] by blast
  define new where "new = stats\<lparr>Download := Download stats + n, LastAccess := t\<rparr>"
  define ts1 where "ts1 = ts\<lparr>totalDownload := totalDownload ts + n\<rparr>"
  have m1: "sites ts1 = Some m" using m by (simp add: ts1_def)
  have r: "RecordDownload ts h n t = Inr (ts1\<lparr>sites := Some (m(h \<mapsto> Some new))\<rparr>)"
    using m e by (simp add: RecordDownload_def Let_def lookupSite_def new_def ts1_def)
  have "totals_match (ts1\<lparr>sites := Some (m(h \<mapsto> Some new))\<rparr>)"
    using allocated_update[OF m1 m(2) m(3), of h new] tot
    by (simp add: totals_match_def siteSum_def siteSum_update[OF m(2) e]
          siteValue_entry new_def ts1_def)
  with r show ?thesis by blast
qed

lemma totals_match_Reset: "totals_match (Reset ts)"
  by (auto simp: totals_match_def allocated_def Reset_def siteSum_def)

lemma totals_match_step:
  "totals_match ts \<Longrightarrow> has_entry ts x \<Longrightarrow>
   \<exists>ts'. apply_stat_op ts x = Inr ts' \<and> totals_match ts'"
  by (cases x)
     (simp_all add: totals_match_RecordConnection totals_match_RecordUpload
        totals_match_RecordDownload totals_match_Reset)

lemma totals_match_run:
  "totals_match ts \<Longrightarrow> entries_exist ts ops \<Longrightarrow>
   \<exists>ts'. run_stat_ops ts ops = Inr ts' \<and> totals_match ts'"
proof (induction ops arbitrary: ts)
  case Nil
  then show ?case by simp
next
  case (Cons x xs)
  from Cons.prems have he: "has_entry ts x" by simp
  from totals_match_step[OF Cons.prems(1) he] obtain ts1 where
    s: "apply_stat_op ts x = Inr ts1" "totals_match ts1" by blast
  from Cons.prems(2) s(1) have "entries_exist ts1 xs" by simp
  from Cons.IH[OF s(2) this] show ?case using s(1) by simp
qed

lemma site_step:
  assumes "lookupSite ts H = Some (Some s)" "x \<noteq> OpReset" "apply_stat_op ts x = Inr ts'"
  shows "\<exists>s'. lookupSite ts' H = Some (Some s') \<and>
           Upload s' = Upload s + up_bytes H [x] \<and>
           Download s' = Download s + down_bytes H [x] \<and>
           Connections s' = Connections s + conn_count H [x]"
  using assms
  by (cases x)
     (auto simp: RecordConnection_def RecordUpload_def RecordDownload_def Let_def
           lookupSite_def
           split: option.splits)

lemma bytes_Cons:
  "up_bytes H (x # xs) = up_bytes H [x] + up_bytes H xs"
  "down_bytes H (x # xs) = down_bytes H [x] + down_bytes H xs"
  "conn_count H (x # xs) = conn_count H [x] + conn_count H xs"
  by (cases x; simp)+

lemma site_run:
  assumes "lookupSite ts H = Some (Some s)" "OpReset \<notin> set ops" "run_stat_ops ts ops = Inr ts'"
  shows "\<exists>s'. lookupSite ts' H = Some (Some s') \<and>
           Upload s' = Upload s + up_bytes H ops \<and>
           Download s' = Download s + down_bytes H ops \<and>
           Connections s' = Connections s + conn_count H ops"
  using assms
proof (induction ops arbitrary: ts s)
  case Nil
  then show ?case by simp
next
  case (Cons x xs)
  from Cons.prems have nr: "x \<noteq> OpReset" "OpReset \<notin> set xs" by auto
  from Cons.prems(3) obtain ts1 where
    a: "apply_stat_op ts x = Inr ts1" and r: "run_stat_ops ts1 xs = Inr ts'"
    by (auto split: sum.splits)
  from site_step[OF Cons.prems(1) nr(1) a] obtain s1 where
    s1: "lookupSite ts1 H = Some (Some s1)"
        "Upload s1 = Upload s + up_bytes H [x]"
        "Download s1 = Download s + down_bytes H [x]"
        "Connections s1 = Connections s + conn_count H [x]" by blast
  from Cons.IH[OF s1(1) nr(2) r] obtain s' where
    s': "lookupSite ts' H = Some (Some s')"
        "Upload s' = Upload s1 + up_bytes H xs"
        "Download s' = Download s1 + down_bytes H xs"
        "Connections s' = Connections s1 + conn_count H xs" by blast
  show ?case
    using s1 s' bytes_Cons[of H x xs] by (simp add: add.assoc)
qed

lemma GetSiteStats_entry:
  "lookupSite ts H = Some (Some s) \<Longrightarrow> GetSiteStats ts H = Inr (Some s)"
  by (simp add: GetSiteStats_def)

lemma RecordConnection_fresh:
  assumes "allocated ts" "lookupSite ts H = None"
  shows "\<exists>ts1. RecordConnection ts H t0 = Inr ts1 \<and>
           lookupSite ts1 H =
             Some (Some \<lparr>Host = H, Upload = 0, Download = 0, Connections = 1,
                         LastAccess = t0, FirstAccess = t0\<rparr>)"
  using assms
  by (auto simp: RecordConnection_def lookupSite_def allocated_def split: option.splits)

lemma no_entry_adds_to_total_only:
  assumes "lookupSite ts H = None"
  shows "RecordUpload ts H n t = Inr (ts\<lparr>totalUpload := totalUpload ts + n\<rparr>) \<and>
         RecordDownload ts H n t = Inr (ts\<lparr>totalDownload := totalDownload ts + n\<rparr>)"
  using assms by (simp add: RecordUpload_def RecordDownload_def Let_def lookupSite_def)

lemma total_only_breaks_match:
  assumes "totals_match ts" "n \<noteq> 0"
  shows "\<not> totals_match (ts\<lparr>totalUpload := totalUpload ts + n\<rparr>) \<and>
         \<not> totals_match (ts\<lparr>totalDownload := totalDownload ts + n\<rparr>)"
  using assms by (auto simp: totals_match_def siteSum_def allocated_def)

text \<open>
  Claim C5, as amended.  Take a store whose \<open>sites\<close> map is allocated, finite and free of
  \<open>nil\<close> pointers, and whose totals equal the sums over its sites (\<open>totals_match\<close>; a
  store created with no snapshot on disk is one).  Then:

  \<^item> every run of \<open>RecordConnection\<close>, \<open>Reset\<close>, and of \<open>RecordUpload\<close> and
    \<open>RecordDownload\<close> for hosts that have an entry when the bytes are recorded, returns
    without panic and leaves a store of the same kind, so \<open>GetTotalStats\<close> returns the
    sums over the sites;
  \<^item> for a host \<open>H\<close> with an entry, and a run without \<open>Reset\<close>, \<open>GetSiteStats H\<close>
    afterwards shows the three counters increased by exactly what the run recorded for
    \<open>H\<close>;
  \<^item> for a host \<open>H\<close> without an entry, a run that starts with \<open>RecordConnection H\<close> and
    then records, without \<open>Reset\<close> and without another connection for \<open>H\<close>, \<open>N\<close> bytes
    up and \<open>M\<close> bytes down for \<open>H\<close>, ends with \<open>GetSiteStats H\<close> returning
    \<open>Upload = N\<close>, \<open>Download = M\<close>, \<open>Connections = 1\<close>;
  \<^item> \<open>RecordUpload\<close> and \<open>RecordDownload\<close> for a host without an entry add to the total
    only, which breaks the equality when the byte count is not 0.

  All counters are 64-bit and wrap around.  On any store whose map is \<open>nil\<close>,
  \<open>RecordConnection\<close> panics.
\<close>

theorem traffic_totals_equal_site_sums:
  assumes "totals_match ts" and "entries_exist ts ops"
  shows "(\<exists>ts'. run_stat_ops ts ops = Inr ts' \<and> totals_match ts' \<and>
            GetTotalStats ts' = (siteSum Upload ts', siteSum Download ts') \<and>
            (\<forall>H s. lookupSite ts H = Some (Some s) \<and> OpReset \<notin> set ops \<longrightarrow>
               (\<exists>s'. GetSiteStats ts' H = Inr (Some s') \<and>
                     Upload s' = Upload s + up_bytes H ops \<and>
                     Download s' = Download s + down_bytes H ops \<and>
                     Connections s' = Connections s + conn_count H ops)) \<and>
            (\<forall>H t0 rest. ops = OpConnection H t0 # rest \<and> lookupSite ts H = None \<and>
                          OpReset \<notin> set rest \<and> conn_count H rest = 0 \<longrightarrow>
               (\<exists>s'. GetSiteStats ts' H = Inr (Some s') \<and>
                     Upload s' = up_bytes H rest \<and>
                     Download s' = down_bytes H rest \<and>
                     Connections s' = 1))) \<and>
         (\<forall>H n t. lookupSite ts H = None \<longrightarrow>
            RecordUpload ts H n t = Inr (ts\<lparr>totalUpload := totalUpload ts + n\<rparr>) \<and>
            RecordDownload ts H n t = Inr (ts\<lparr>totalDownload := totalDownload ts + n\<rparr>) \<and>
            (n \<noteq> 0 \<longrightarrow>
               \<not> totals_match (ts\<lparr>totalUpload := totalUpload ts + n\<rparr>) \<and>
               \<not> totals_match (ts\<lparr>totalDownload := totalDownload ts + n\<rparr>))) \<and>
         (\<forall>ts0 H t. sites ts0 = None \<longrightarrow> RecordConnection ts0 H t = Inl NilMapAssignment)"
proof -
  from totals_match_run[OF assms] obtain ts' where
    r: "run_stat_ops ts ops = Inr ts'" and tm: "totals_match ts'" by blast
  have tot: "GetTotalStats ts' = (siteSum Upload ts', siteSum Download ts')"
    using tm by (simp add: GetTotalStats_def totals_match_def)
  have ex: "\<forall>H s. lookupSite ts H = Some (Some s) \<and> OpReset \<notin> set ops \<longrightarrow>
               (\<exists>s'. GetSiteStats ts' H = Inr (Some s') \<and>
                     Upload s' = Upload s + up_bytes H ops \<and>
                     Download s' = Download s + down_bytes H ops \<and>
                     Connections s' = Connections s + conn_count H ops)"
  proof (intro allI impI)
    fix H s
    assume h: "lookupSite ts H = Some (Some s) \<and> OpReset \<notin> set ops"
    from site_run[OF conjunct1[OF h] conjunct2[OF h] r]
    show "\<exists>s'. GetSiteStats ts' H = Inr (Some s') \<and>
                     Upload s' = Upload s + up_bytes H ops \<and>
                     Download s' = Download s + down_bytes H ops \<and>
                     Connections s' = Connections s + conn_count H ops"
      using GetSiteStats_entry by blast
  qed
  have al: "allocated ts" using assms(1) by (simp add: totals_match_def)
  have fresh: "\<forall>H t0 rest. ops = OpConnection H t0 # rest \<and> lookupSite ts H = None \<and>
                          OpReset \<notin> set rest \<and> conn_count H rest = 0 \<longrightarrow>
               (\<exists>s'. GetSiteStats ts' H = Inr (Some s') \<and>
                     Upload s' = up_bytes H rest \<and>
                     Download s' = down_bytes H rest \<and>
                     Connections s' = 1)"
  proof (intro allI impI)
    fix H t0 rest
    assume h: "ops = OpConnection H t0 # rest \<and> lookupSite ts H = None \<and>
               OpReset \<notin> set rest \<and> conn_count H rest = 0"
    from h have hn: "lookupSite ts H = None" by simp
    from RecordConnection_fresh[OF al hn, of t0] obtain ts1 where
      c: "RecordConnection ts H t0 = Inr ts1" and
      l: "lookupSite ts1 H =
             Some (Some \<lparr>Host = H, Upload = 0, Download = 0, Connections = 1,
                         LastAccess = t0, FirstAccess = t0\<rparr>)" by blast
    have r1: "run_stat_ops ts1 rest = Inr ts'" using r h c by simp
    from h have nr: "OpReset \<notin> set rest" and cc: "conn_count H rest = 0" by simp_all
    from site_run[OF l nr r1] cc
    show "\<exists>s'. GetSiteStats ts' H = Inr (Some s') \<and>
                     Upload s' = up_bytes H rest \<and>
                     Download s' = down_bytes H rest \<and>
                     Connections s' = 1"
      using GetSiteStats_entry by fastforce
  qed
  have only: "\<forall>H n t. lookupSite ts H = None \<longrightarrow>
            RecordUpload ts H n t = Inr (ts\<lparr>totalUpload := totalUpload ts + n\<rparr>) \<and>
            RecordDownload ts H n t = Inr (ts\<lparr>totalDownload := totalDownload ts + n\<rparr>) \<and>
            (n \<noteq> 0 \<longrightarrow>
               \<not> totals_match (ts\<lparr>totalUpload := totalUpload ts + n\<rparr>) \<and>
               \<not> totals_match (ts\<lparr>totalDownload := totalDownload ts + n\<rparr>))"
    using no_entry_adds_to_total_only total_only_breaks_match[OF assms(1)] by blast
  have nilmap: "\<forall>ts0 H t. sites ts0 = None \<longrightarrow> RecordConnection ts0 H t = Inl NilMapAssignment"
    by (simp add: RecordConnection_def lookupSite_def)
  show ?thesis using r tm tot ex fresh only nilmap by blast
qed

lemma empty_store_match: "totals_match empty_store"
  by (simp add: empty_store_def NewTrafficStats_def load_def totals_match_def allocated_def
        siteSum_def)

lemma demo_ops_entries: "entries_exist empty_store demo_ops"
  by (simp add: empty_store_def demo_ops_def NewTrafficStats_def load_def RecordConnection_def
        RecordUpload_def RecordDownload_def lookupSite_def Let_def)

theorem traffic_totals_equal_site_sums_witness:
  "totals_match empty_store \<and> entries_exist empty_store demo_ops \<and>
   (\<exists>ts'. run_stat_ops empty_store demo_ops = Inr ts' \<and> totals_match ts' \<and>
          GetTotalStats ts' = (120, 250) \<and>
          (\<exists>s'. GetSiteStats ts' ''example.com'' = Inr (Some s') \<and>
                Upload s' = 120 \<and> Download s' = 250 \<and> Connections s' = 1)) \<and>
   lookupSite empty_store ''other.org'' = None \<and>
   RecordUpload empty_store ''other.org'' 7 5 = Inr (empty_store\<lparr>totalUpload := 7\<rparr>) \<and>
   \<not> totals_match (empty_store\<lparr>totalUpload := 7\<rparr>) \<and>
   sites (NewTrafficStats ''.echplus'' (Some empty_object_snapshot)) = None \<and>
   RecordConnection (NewTrafficStats ''.echplus'' (Some empty_object_snapshot))
     ''example.com'' 0 = Inl NilMapAssignment"
proof -
  note t = traffic_totals_equal_site_sums[OF empty_store_match demo_ops_entries]
  have d: "demo_ops = OpConnection ''example.com'' 0 #
             [OpUpload ''example.com'' 100 1, OpDownload ''example.com'' 250 2,
              OpUpload ''example.com'' 20 3]"
    by (simp add: demo_ops_def)
  have l: "lookupSite empty_store ''example.com'' = None"
    by (simp add: empty_store_def NewTrafficStats_def load_def lookupSite_def)
  have c: "OpReset \<notin> set [OpUpload ''example.com'' 100 1, OpDownload ''example.com'' 250 2,
              OpUpload ''example.com'' 20 3] \<and>
           conn_count ''example.com'' [OpUpload ''example.com'' 100 1,
              OpDownload ''example.com'' 250 2, OpUpload ''example.com'' 20 3] = 0"
    by simp
  from t obtain ts' where
    r: "run_stat_ops empty_store demo_ops = Inr ts'" and tm: "totals_match ts'" and
    f: "\<forall>H t0 rest. demo_ops = OpConnection H t0 # rest \<and> lookupSite empty_store H = None \<and>
                          OpReset \<notin> set rest \<and> conn_count H rest = 0 \<longrightarrow>
               (\<exists>s'. GetSiteStats ts' H = Inr (Some s') \<and>
                     Upload s' = up_bytes H rest \<and>
                     Download s' = down_bytes H rest \<and>
                     Connections s' = 1)"
    by blast
  from f d l c have
    "\<exists>s'. GetSiteStats ts' ''example.com'' = Inr (Some s') \<and>
          Upload s' = up_bytes ''example.com'' [OpUpload ''example.com'' 100 1,
              OpDownload ''example.com'' 250 2, OpUpload ''example.com'' 20 3] \<and>
          Download s' = down_bytes ''example.com'' [OpUpload ''example.com'' 100 1,
              OpDownload ''example.com'' 250 2, OpUpload ''example.com'' 20 3] \<and>
          Connections s' = 1"
    by blast
  then have g: "\<exists>s'. GetSiteStats ts' ''example.com'' = Inr (Some s') \<and>
          Upload s' = 120 \<and> Download s' = 250 \<and> Connections s' = 1"
    by simp
  have "map_sum id GetTotalStats (run_stat_ops empty_store demo_ops) = Inr (120, 250)"
    by (simp add: empty_store_def demo_ops_def NewTrafficStats_def load_def
          RecordConnection_def RecordUpload_def RecordDownload_def lookupSite_def Let_def
          GetTotalStats_def)
  then have tot: "GetTotalStats ts' = (120, 250)" using r by simp
  have lo: "lookupSite empty_store ''other.org'' = None"
    by (simp add: empty_store_def NewTrafficStats_def load_def lookupSite_def)
  from t lo have
    u: "RecordUpload empty_store ''other.org'' 7 5 =
          Inr (empty_store\<lparr>totalUpload := totalUpload empty_store + 7\<rparr>)" and
    n: "\<not> totals_match (empty_store\<lparr>totalUpload := totalUpload empty_store + 7\<rparr>)"
    by auto
  have z: "totalUpload empty_store = 0"
    by (simp add: empty_store_def NewTrafficStats_def load_def)
  have nm: "sites (NewTrafficStats ''.echplus'' (Some empty_object_snapshot)) = None"
    by (simp add: NewTrafficStats_def load_def empty_object_snapshot_def)
  from t nm have p: "RecordConnection (NewTrafficStats ''.echplus'' (Some empty_object_snapshot))
     ''example.com'' 0 = Inl NilMapAssignment"
    by blast
  show ?thesis
    using empty_store_match demo_ops_entries r tm tot g lo u n nm p unfolding z by auto
qed

text \<open>
  The claim as stated fails on a store loaded from a snapshot: a session of 1 KiB on one
  host is below \<open>minSaveThreshold\<close>, so \<open>Save\<close> drops the site and keeps the total, and
  the store that \<open>NewTrafficStats\<close> loads has a total of 1024 over an empty map.
\<close>

theorem totals_differ_after_reload:
  "run_stat_ops empty_store small_ops = Inr small_store \<and>
   Save small_store = Inr small_snapshot \<and>
   totalUpload (NewTrafficStats ''.echplus'' (Some small_snapshot)) = 1024 \<and>
   siteSum Upload (NewTrafficStats ''.echplus'' (Some small_snapshot)) = 0 \<and>
   \<not> totals_match (NewTrafficStats ''.echplus'' (Some small_snapshot))"
proof -
  have a: "run_stat_ops empty_store small_ops = Inr small_store"
    by (simp add: empty_store_def small_ops_def small_store_def NewTrafficStats_def load_def
          RecordConnection_def RecordUpload_def lookupSite_def Let_def)
  have n: "\<not> has_nil_entry small_store"
    by (simp add: has_nil_entry_def small_store_def lookupSite_def)
  have b: "Save small_store = Inr small_snapshot"
    using n
    by (simp add: Save_def small_snapshot_def)
       (auto simp: small_store_def lookupSite_def minSaveThreshold_def fun_eq_iff)
  have c: "totalUpload (NewTrafficStats ''.echplus'' (Some small_snapshot)) = 1024"
    by (simp add: NewTrafficStats_def load_def small_snapshot_def)
  have d: "siteSum Upload (NewTrafficStats ''.echplus'' (Some small_snapshot)) = 0"
    by (simp add: NewTrafficStats_def load_def small_snapshot_def siteSum_def)
  have e: "\<not> totals_match (NewTrafficStats ''.echplus'' (Some small_snapshot))"
    using c d by (simp add: totals_match_def)
  show ?thesis using a b c d e by blast
qed

section \<open>Theorems: the routing decision and the China IP database\<close>

lemma isPrivateIP_private_target:
  "isPrivateIP lib host lookup = private_target lib host lookup"
  by (auto simp: isPrivateIP_def private_target_def Let_def split: option.splits)


lemma searchV4_empty: "\<not> left < right \<Longrightarrow> searchV4 rs x left right = False"
  by (subst searchV4.simps) (simp del: searchV4.simps)

lemma searchV4_left:
  "left < right \<Longrightarrow> x < start (rs ! ((left + right) div 2)) \<Longrightarrow>
   searchV4 rs x left right = searchV4 rs x left ((left + right) div 2)"
  by (subst searchV4.simps) (simp add: Let_def del: searchV4.simps)

lemma searchV4_right:
  "left < right \<Longrightarrow> \<not> x < start (rs ! ((left + right) div 2)) \<Longrightarrow>
   end' (rs ! ((left + right) div 2)) < x \<Longrightarrow>
   searchV4 rs x left right = searchV4 rs x ((left + right) div 2 + 1) right"
  by (subst searchV4.simps) (simp add: Let_def del: searchV4.simps)

lemma searchV4_hit:
  "left < right \<Longrightarrow> \<not> x < start (rs ! ((left + right) div 2)) \<Longrightarrow>
   \<not> end' (rs ! ((left + right) div 2)) < x \<Longrightarrow> searchV4 rs x left right = True"
  by (subst searchV4.simps) (simp add: Let_def del: searchV4.simps)

lemma not_inRange4_below: "x < start r \<Longrightarrow> \<not> inRange4 x r"
  by (metis inRange4_def not_le)

lemma not_inRange4_above: "end' r < x \<Longrightarrow> \<not> inRange4 x r"
  by (metis inRange4_def not_le)

lemma inRange4_between: "\<not> x < start r \<Longrightarrow> \<not> end' r < x \<Longrightarrow> inRange4 x r"
  by (metis inRange4_def not_le)

lemma searchV4_finds:
  "sorted_wrt (\<lambda>a b. end' a < start b) rs \<Longrightarrow>
   \<forall>r \<in> set rs. start r \<le> end' r \<Longrightarrow> r \<le> length rs \<Longrightarrow>
   searchV4 rs x l r = (\<exists>i. l \<le> i \<and> i < r \<and> inRange4 x (rs ! i))"
proof (induction rs x l r rule: searchV4.induct)
  case (1 rs x left right)
  note srt = "1.prems"(1) and wf = "1.prems"(2) and bound = "1.prems"(3)
  have sorted: "end' (rs ! i) < start (rs ! j)" if "i < j" "j < length rs" for i j
    by (rule srt[unfolded sorted_wrt_iff_nth_less, rule_format, OF that])
  show ?case
  proof (cases "left < right")
    case False
    have "\<not> (\<exists>i. left \<le> i \<and> i < right \<and> inRange4 x (rs ! i))" using False by simp
    then show ?thesis using searchV4_empty[OF False] by simp
  next
    case True
    define mid where "mid = (left + right) div 2"
    have mr: "left \<le> mid" "mid < right" using True by (simp_all add: mid_def)
    have ml: "mid < length rs" using mr bound by simp
    have se: "start (rs ! mid) \<le> end' (rs ! mid)"
      by (rule wf[rule_format, OF nth_mem[OF ml]])
    show ?thesis
    proof (cases "x < start (rs ! mid)")
      case lt: True
      have rec: "searchV4 rs x left right = searchV4 rs x left mid"
        unfolding mid_def by (rule searchV4_left[OF True lt[unfolded mid_def]])
      have ih: "searchV4 rs x left mid = (\<exists>i. left \<le> i \<and> i < mid \<and> inRange4 x (rs ! i))"
        by (rule "1.IH"(1)[OF True mid_def refl lt srt wf]) (use ml in simp)
      have above: "\<not> inRange4 x (rs ! i)" if "mid \<le> i" "i < right" for i
      proof (cases "i = mid")
        case True
        then show ?thesis using lt by (simp add: not_inRange4_below)
      next
        case False
        then have "mid < i" using that by simp
        moreover have "i < length rs" using that bound by simp
        ultimately have "end' (rs ! mid) < start (rs ! i)" by (rule sorted)
        then have "x < start (rs ! i)" using lt se by (metis le_less_trans less_trans)
        then show ?thesis by (rule not_inRange4_below)
      qed
      have "(\<exists>i. left \<le> i \<and> i < right \<and> inRange4 x (rs ! i)) =
            (\<exists>i. left \<le> i \<and> i < mid \<and> inRange4 x (rs ! i))" (is "?A = ?B")
      proof
        assume ?A
        then obtain i where i: "left \<le> i" "i < right" "inRange4 x (rs ! i)" by blast
        have "i < mid" using above[of i] i by (cases "i < mid") simp_all
        then show ?B using i by blast
      next
        assume ?B
        then obtain i where i: "left \<le> i" "i < mid" "inRange4 x (rs ! i)" by blast
        have "i < right" using i(2) mr(2) by simp
        then show ?A using i by blast
      qed
      then show ?thesis unfolding rec ih by simp
    next
      case nlt: False
      show ?thesis
      proof (cases "end' (rs ! mid) < x")
        case gt: True
        have rec: "searchV4 rs x left right = searchV4 rs x (mid + 1) right"
          unfolding mid_def
          by (rule searchV4_right[OF True nlt[unfolded mid_def] gt[unfolded mid_def]])
        have gt': "x > end' (rs ! mid)" using gt .
        have ih: "searchV4 rs x (mid + 1) right =
                    (\<exists>i. mid + 1 \<le> i \<and> i < right \<and> inRange4 x (rs ! i))"
          by (rule "1.IH"(2)[OF True mid_def refl nlt gt' srt wf bound])
        have below: "\<not> inRange4 x (rs ! i)" if "i \<le> mid" for i
        proof (cases "i = mid")
          case True
          then show ?thesis using gt by (simp add: not_inRange4_above)
        next
          case False
          then have "i < mid" using that by simp
          then have "end' (rs ! i) < start (rs ! mid)" using ml by (rule sorted)
          then have "end' (rs ! i) < x" using gt se by (metis le_less_trans less_trans)
          then show ?thesis by (rule not_inRange4_above)
        qed
        have "(\<exists>i. left \<le> i \<and> i < right \<and> inRange4 x (rs ! i)) =
              (\<exists>i. mid + 1 \<le> i \<and> i < right \<and> inRange4 x (rs ! i))" (is "?A = ?B")
        proof
          assume ?A
          then obtain i where i: "left \<le> i" "i < right" "inRange4 x (rs ! i)" by blast
          have "mid + 1 \<le> i" using below[of i] i by (cases "i \<le> mid") simp_all
          then show ?B using i by blast
        next
          assume ?B
          then obtain i where i: "mid + 1 \<le> i" "i < right" "inRange4 x (rs ! i)" by blast
          have "left \<le> i" using i(1) mr(1) by simp
          then show ?A using i by blast
        qed
        then show ?thesis unfolding rec ih by simp
      next
        case ngt: False
        have "searchV4 rs x left right = True"
          unfolding mid_def
          by (rule searchV4_hit[OF True nlt[unfolded mid_def] ngt[unfolded mid_def]])
        moreover have "inRange4 x (rs ! mid)" using nlt ngt by (rule inRange4_between)
        ultimately show ?thesis using mr by blast
      qed
    qed
  qed
qed

lemma ipv6Value_head:
  assumes "m < n" and "x < (k::nat)"
  shows "m * k + x < n * k + y"
proof -
  have "Suc m \<le> n" using assms(1) by simp
  then have "Suc m * k \<le> n * k" by (rule mult_le_mono1)
  moreover have "Suc m * k = m * k + k" by simp
  ultimately have "m * k + k \<le> n * k" by (simp del: mult_Suc)
  then show ?thesis using assms(2) by linarith
qed

lemma ipv6Value_bound: "ipv6Value bs < 256 ^ length bs"
proof (induction bs)
  case Nil
  show ?case by simp
next
  case (Cons b bs)
  have "unat b < 256" using unsigned_less[of b] by simp
  then have "unat b * 256 ^ length bs + ipv6Value bs < 256 * 256 ^ length bs + 0"
    using Cons by (rule ipv6Value_head)
  then show ?case by simp
qed

lemma compareIPv6_value:
  "length a = length b \<Longrightarrow>
   compareIPv6 a b = (if ipv6Value a < ipv6Value b then -1
                      else if ipv6Value b < ipv6Value a then 1 else 0)"
proof (induction a b rule: list_induct2)
  case Nil
  show ?case by simp
next
  case (Cons x xs y ys)
  consider "x < y" | "y < x" | "x = y" by (metis not_less_iff_gr_or_eq)
  then show ?case
  proof cases
    case 1
    then have "unat x < unat y" by (simp add: word_less_nat_alt)
    then have "ipv6Value (x # xs) < ipv6Value (y # ys)"
      using ipv6Value_head[of "unat x" "unat y" "ipv6Value xs" "256 ^ length xs" "ipv6Value ys"]
        ipv6Value_bound[of xs] Cons.hyps by simp
    then show ?thesis using 1 by simp
  next
    case 2
    then have "unat y < unat x" by (simp add: word_less_nat_alt)
    then have lt: "ipv6Value (y # ys) < ipv6Value (x # xs)"
      using ipv6Value_head[of "unat y" "unat x" "ipv6Value ys" "256 ^ length ys" "ipv6Value xs"]
        ipv6Value_bound[of ys] Cons.hyps by simp
    have "\<not> x < y" using 2 by (metis not_less_iff_gr_or_eq)
    then have "compareIPv6 (x # xs) (y # ys) = 1" using 2 by simp
    moreover have "\<not> ipv6Value (x # xs) < ipv6Value (y # ys)" using lt by simp
    ultimately show ?thesis using lt by (simp del: ipv6Value.simps compareIPv6.simps)
  next
    case 3
    then show ?thesis using Cons by simp
  qed
qed

lemma compareIPv6_neg:
  "length a = length b \<Longrightarrow> (compareIPv6 a b < 0) = (ipv6Value a < ipv6Value b)"
  by (simp add: compareIPv6_value)

lemma compareIPv6_pos:
  "length a = length b \<Longrightarrow> (compareIPv6 a b > 0) = (ipv6Value b < ipv6Value a)"
  by (simp add: compareIPv6_value)

lemma searchV6_empty: "\<not> left < right \<Longrightarrow> searchV6 rs x left right = False"
  by (subst searchV6.simps) (simp del: searchV6.simps)

lemma searchV6_left:
  "left < right \<Longrightarrow> compareIPv6 x (start6 (rs ! ((left + right) div 2))) < 0 \<Longrightarrow>
   searchV6 rs x left right = searchV6 rs x left ((left + right) div 2)"
  by (subst searchV6.simps) (simp add: Let_def del: searchV6.simps)

lemma searchV6_right:
  "left < right \<Longrightarrow> \<not> compareIPv6 x (start6 (rs ! ((left + right) div 2))) < 0 \<Longrightarrow>
   compareIPv6 x (end6 (rs ! ((left + right) div 2))) > 0 \<Longrightarrow>
   searchV6 rs x left right = searchV6 rs x ((left + right) div 2 + 1) right"
  by (subst searchV6.simps) (simp add: Let_def del: searchV6.simps)

lemma searchV6_hit:
  "left < right \<Longrightarrow> \<not> compareIPv6 x (start6 (rs ! ((left + right) div 2))) < 0 \<Longrightarrow>
   \<not> compareIPv6 x (end6 (rs ! ((left + right) div 2))) > 0 \<Longrightarrow>
   searchV6 rs x left right = True"
  by (subst searchV6.simps) (simp add: Let_def del: searchV6.simps)

lemma searchV6_finds:
  "sorted_wrt (\<lambda>a b. ipv6Value (end6 a) < ipv6Value (start6 b)) rs \<Longrightarrow>
   \<forall>r \<in> set rs. length (start6 r) = length x \<and> length (end6 r) = length x \<and>
                  ipv6Value (start6 r) \<le> ipv6Value (end6 r) \<Longrightarrow>
   r \<le> length rs \<Longrightarrow>
   searchV6 rs x l r = (\<exists>i. l \<le> i \<and> i < r \<and> inRange6 x (rs ! i))"
proof (induction rs x l r rule: searchV6.induct)
  case (1 rs x left right)
  note srt = "1.prems"(1) and wf = "1.prems"(2) and bound = "1.prems"(3)
  have sorted: "ipv6Value (end6 (rs ! i)) < ipv6Value (start6 (rs ! j))"
    if "i < j" "j < length rs" for i j
    by (rule srt[unfolded sorted_wrt_iff_nth_less, rule_format, OF that])
  show ?case
  proof (cases "left < right")
    case False
    have "\<not> (\<exists>i. left \<le> i \<and> i < right \<and> inRange6 x (rs ! i))" using False by simp
    then show ?thesis using searchV6_empty[OF False] by simp
  next
    case True
    define mid where "mid = (left + right) div 2"
    have mr: "left \<le> mid" "mid < right" using True by (simp_all add: mid_def)
    have ml: "mid < length rs" using mr bound by simp
    have wfm: "length (start6 (rs ! mid)) = length x \<and> length (end6 (rs ! mid)) = length x \<and>
               ipv6Value (start6 (rs ! mid)) \<le> ipv6Value (end6 (rs ! mid))"
      by (rule wf[rule_format, OF nth_mem[OF ml]])
    have se: "ipv6Value (start6 (rs ! mid)) \<le> ipv6Value (end6 (rs ! mid))" using wfm by simp
    have cs: "(compareIPv6 x (start6 (rs ! mid)) < 0) = (ipv6Value x < ipv6Value (start6 (rs ! mid)))"
      using wfm by (intro compareIPv6_neg) simp
    have ce: "(compareIPv6 x (end6 (rs ! mid)) > 0) = (ipv6Value (end6 (rs ! mid)) < ipv6Value x)"
      using wfm by (intro compareIPv6_pos) simp
    show ?thesis
    proof (cases "compareIPv6 x (start6 (rs ! mid)) < 0")
      case lt: True
      have ltv: "ipv6Value x < ipv6Value (start6 (rs ! mid))" using lt cs by simp
      have rec: "searchV6 rs x left right = searchV6 rs x left mid"
        unfolding mid_def by (rule searchV6_left[OF True lt[unfolded mid_def]])
      have ih: "searchV6 rs x left mid = (\<exists>i. left \<le> i \<and> i < mid \<and> inRange6 x (rs ! i))"
        by (rule "1.IH"(1)[OF True mid_def refl lt srt wf]) (use ml in simp)
      have above: "\<not> inRange6 x (rs ! i)" if "mid \<le> i" "i < right" for i
      proof (cases "i = mid")
        case True
        then show ?thesis using ltv by (simp add: inRange6_def)
      next
        case False
        then have "mid < i" using that by simp
        moreover have "i < length rs" using that bound by simp
        ultimately have "ipv6Value (end6 (rs ! mid)) < ipv6Value (start6 (rs ! i))"
          by (rule sorted)
        then show ?thesis using ltv se by (simp add: inRange6_def)
      qed
      have "(\<exists>i. left \<le> i \<and> i < right \<and> inRange6 x (rs ! i)) =
            (\<exists>i. left \<le> i \<and> i < mid \<and> inRange6 x (rs ! i))" (is "?A = ?B")
      proof
        assume ?A
        then obtain i where i: "left \<le> i" "i < right" "inRange6 x (rs ! i)" by blast
        have "i < mid" using above[of i] i by (cases "i < mid") simp_all
        then show ?B using i by blast
      next
        assume ?B
        then obtain i where i: "left \<le> i" "i < mid" "inRange6 x (rs ! i)" by blast
        have "i < right" using i(2) mr(2) by simp
        then show ?A using i by blast
      qed
      then show ?thesis unfolding rec ih by simp
    next
      case nlt: False
      have nltv: "\<not> ipv6Value x < ipv6Value (start6 (rs ! mid))" using nlt cs by simp
      show ?thesis
      proof (cases "compareIPv6 x (end6 (rs ! mid)) > 0")
        case gt: True
        have gtv: "ipv6Value (end6 (rs ! mid)) < ipv6Value x" using gt ce by simp
        have rec: "searchV6 rs x left right = searchV6 rs x (mid + 1) right"
          unfolding mid_def
          by (rule searchV6_right[OF True nlt[unfolded mid_def] gt[unfolded mid_def]])
        have ih: "searchV6 rs x (mid + 1) right =
                    (\<exists>i. mid + 1 \<le> i \<and> i < right \<and> inRange6 x (rs ! i))"
          by (rule "1.IH"(2)[OF True mid_def refl nlt gt srt wf bound])
        have below: "\<not> inRange6 x (rs ! i)" if "i \<le> mid" for i
        proof (cases "i = mid")
          case True
          then show ?thesis using gtv by (simp add: inRange6_def)
        next
          case False
          then have "i < mid" using that by simp
          then have "ipv6Value (end6 (rs ! i)) < ipv6Value (start6 (rs ! mid))"
            using ml by (rule sorted)
          then show ?thesis using gtv se by (simp add: inRange6_def)
        qed
        have "(\<exists>i. left \<le> i \<and> i < right \<and> inRange6 x (rs ! i)) =
              (\<exists>i. mid + 1 \<le> i \<and> i < right \<and> inRange6 x (rs ! i))" (is "?A = ?B")
        proof
          assume ?A
          then obtain i where i: "left \<le> i" "i < right" "inRange6 x (rs ! i)" by blast
          have "mid + 1 \<le> i" using below[of i] i by (cases "i \<le> mid") simp_all
          then show ?B using i by blast
        next
          assume ?B
          then obtain i where i: "mid + 1 \<le> i" "i < right" "inRange6 x (rs ! i)" by blast
          have "left \<le> i" using i(1) mr(1) by simp
          then show ?A using i by blast
        qed
        then show ?thesis unfolding rec ih by simp
      next
        case ngt: False
        have ngtv: "\<not> ipv6Value (end6 (rs ! mid)) < ipv6Value x" using ngt ce by simp
        have "searchV6 rs x left right = True"
          unfolding mid_def
          by (rule searchV6_hit[OF True nlt[unfolded mid_def] ngt[unfolded mid_def]])
        moreover have "inRange6 x (rs ! mid)" using nltv ngtv by (simp add: inRange6_def)
        ultimately show ?thesis using mr by blast
      qed
    qed
  qed
qed

lemma To16_length: "To16 ip \<noteq> [] \<Longrightarrow> length (To16 ip) = 16"
  by (auto simp: To16_def v4InV6Prefix_def split: if_splits)

lemma list_ex_nth: "list_ex P xs = (\<exists>i. 0 \<le> i \<and> i < length xs \<and> P (xs ! i))"
  by (simp add: list_ex_length)

lemma searchV4_db:
  assumes "sortedDisjoint4 rs"
  shows "searchV4 rs x 0 (length rs) = list_ex (inRange4 x) rs"
proof -
  have "sorted_wrt (\<lambda>a b. end' a < start b) rs" using assms by (simp add: sortedDisjoint4_def)
  moreover have "\<forall>r \<in> set rs. start r \<le> end' r"
    using assms by (simp add: sortedDisjoint4_def list_all_iff)
  ultimately show ?thesis unfolding list_ex_nth by (intro searchV4_finds) simp_all
qed

lemma zero_not_in_db:
  assumes "sortedDisjoint4 rs"
  shows "\<not> list_ex (inRange4 0) rs"
proof -
  have "\<not> inRange4 0 r" if "r \<in> set rs" for r
  proof -
    have "0 < start r" using assms that by (simp add: sortedDisjoint4_def list_all_iff)
    then show ?thesis by (rule not_inRange4_below)
  qed
  then show ?thesis by (auto simp: list_ex_iff)
qed

lemma searchV6_db:
  assumes "sortedDisjoint6 rs" and "length x = 16"
  shows "searchV6 rs x 0 (length rs) = list_ex (inRange6 x) rs"
proof -
  have "sorted_wrt (\<lambda>a b. ipv6Value (end6 a) < ipv6Value (start6 b)) rs"
    using assms(1) by (simp add: sortedDisjoint6_def)
  moreover have "\<forall>r \<in> set rs. length (start6 r) = length x \<and> length (end6 r) = length x \<and>
                   ipv6Value (start6 r) \<le> ipv6Value (end6 r)"
    using assms by (simp add: sortedDisjoint6_def list_all_iff)
  ultimately show ?thesis unfolding list_ex_nth by (intro searchV6_finds) simp_all
qed

lemma isChinaIP_db:
  assumes "well_formed_db s"
  shows "isChinaIP lib s q = db_contains lib s q"
proof -
  have s4: "sortedDisjoint4 (chinaIPRanges s)" and s6: "sortedDisjoint6 (chinaIPV6Ranges s)"
    using assms by (simp_all add: well_formed_db_def)
  show ?thesis
  proof (cases "ParseIP lib q = []")
    case True
    then show ?thesis by (simp add: isChinaIP_def db_contains_def)
  next
    case parsed: False
    show ?thesis
    proof (cases "To4 (ParseIP lib q) = []")
      case False
      show ?thesis
      proof (cases "ipToUint32 (ParseIP lib q) = 0")
        case True
        then show ?thesis
          using parsed False zero_not_in_db[OF s4]
          by (simp add: isChinaIP_def db_contains_def Let_def)
      next
        case nz: False
        then show ?thesis
          using parsed False searchV4_db[OF s4]
          by (simp add: isChinaIP_def db_contains_def Let_def)
      qed
    next
      case True
      show ?thesis
      proof (cases "To16 (ParseIP lib q) = []")
        case True
        then show ?thesis
          using parsed \<open>To4 (ParseIP lib q) = []\<close>
          by (simp add: isChinaIP_def db_contains_def Let_def)
      next
        case False
        have "searchV6 (chinaIPV6Ranges s) (To16 (ParseIP lib q)) 0 (length (chinaIPV6Ranges s)) =
              list_ex (inRange6 (To16 (ParseIP lib q))) (chinaIPV6Ranges s)"
          by (rule searchV6_db[OF s6 To16_length[OF False]])
        then show ?thesis
          using parsed False \<open>To4 (ParseIP lib q) = []\<close>
          by (simp add: isChinaIP_def db_contains_def Let_def)
      qed
    qed
  qed
qed

lemma shouldBypassProxy_modes:
  "(RoutingMode (config s) = RoutingModeNone \<longrightarrow> shouldBypassProxy lib s host lookup1 lookup2) \<and>
   (private_target lib host lookup1 \<longrightarrow> shouldBypassProxy lib s host lookup1 lookup2) \<and>
   (\<not> private_target lib host lookup1 \<and> RoutingMode (config s) = RoutingModeGlobal \<longrightarrow>
      \<not> shouldBypassProxy lib s host lookup1 lookup2) \<and>
   (\<not> private_target lib host lookup1 \<and> RoutingMode (config s) = RoutingModeBypassCN \<longrightarrow>
      (ParseIP lib host \<noteq> [] \<longrightarrow>
         shouldBypassProxy lib s host lookup1 lookup2 = isChinaIP lib s host) \<and>
      (ParseIP lib host = [] \<longrightarrow>
         (\<forall>ips. lookup2 = Some ips \<longrightarrow>
            shouldBypassProxy lib s host lookup1 lookup2 =
              (\<exists>ip \<in> set ips. isChinaIP lib s (IPString lib ip))) \<and>
         (lookup2 = None \<longrightarrow> \<not> shouldBypassProxy lib s host lookup1 lookup2)))"
  unfolding isPrivateIP_private_target[symmetric]
  by (auto simp: shouldBypassProxy_def RoutingModeNone_def RoutingModeGlobal_def
        RoutingModeBypassCN_def list_ex_iff split: option.splits)

lemma cn_routing_mode: "RoutingMode (config (cn_routing m)) = m"
  by (simp add: cn_routing_def demo_config_def)

text \<open>
  Claim C1, as amended.  \<open>shouldBypassProxy\<close> returns true in mode \<open>none\<close>; it returns
  true in every mode for a private target (a literal private, loopback or link-local
  address, or a name whose resolution, the one made by \<open>isPrivateIP\<close>, succeeds with
  only such addresses); for any other target it returns false in mode \<open>global\<close>; in
  mode \<open>bypass_cn\<close> a literal address bypasses iff the binary search of \<open>isChinaIP\<close> finds
  it, a name bypasses iff the search finds at least one address of the second resolution,
  and a failed resolution gives false.  When the loaded ranges are sorted and pairwise
  disjoint (IPv4 ranges starting above 0, IPv6 bounds compared as 128-bit numbers), the
  search finds an address iff some loaded range of its family contains it, so that in
  mode \<open>bypass_cn\<close> a literal address that is not private bypasses iff the database
  contains it, and a name iff the database contains one of its addresses.
\<close>

theorem shouldBypassProxy_decision:
  "(RoutingMode (config s) = RoutingModeNone \<longrightarrow> shouldBypassProxy lib s host lookup1 lookup2) \<and>
   (private_target lib host lookup1 \<longrightarrow> shouldBypassProxy lib s host lookup1 lookup2) \<and>
   (\<not> private_target lib host lookup1 \<and> RoutingMode (config s) = RoutingModeGlobal \<longrightarrow>
      \<not> shouldBypassProxy lib s host lookup1 lookup2) \<and>
   (\<not> private_target lib host lookup1 \<and> RoutingMode (config s) = RoutingModeBypassCN \<longrightarrow>
      (ParseIP lib host \<noteq> [] \<longrightarrow>
         shouldBypassProxy lib s host lookup1 lookup2 = isChinaIP lib s host) \<and>
      (ParseIP lib host = [] \<longrightarrow>
         (\<forall>ips. lookup2 = Some ips \<longrightarrow>
            shouldBypassProxy lib s host lookup1 lookup2 =
              (\<exists>ip \<in> set ips. isChinaIP lib s (IPString lib ip))) \<and>
         (lookup2 = None \<longrightarrow> \<not> shouldBypassProxy lib s host lookup1 lookup2))) \<and>
   (well_formed_db s \<longrightarrow> (\<forall>q. isChinaIP lib s q = db_contains lib s q)) \<and>
   (well_formed_db s \<and> \<not> private_target lib host lookup1 \<and>
    RoutingMode (config s) = RoutingModeBypassCN \<longrightarrow>
      (ParseIP lib host \<noteq> [] \<longrightarrow>
         shouldBypassProxy lib s host lookup1 lookup2 = db_contains lib s host) \<and>
      (ParseIP lib host = [] \<longrightarrow>
         (\<forall>ips. lookup2 = Some ips \<longrightarrow>
            shouldBypassProxy lib s host lookup1 lookup2 =
              (\<exists>ip \<in> set ips. db_contains lib s (IPString lib ip)))))"
proof -
  note m = shouldBypassProxy_modes[of s lib host lookup1 lookup2]
  have db: "well_formed_db s \<longrightarrow> (\<forall>q. isChinaIP lib s q = db_contains lib s q)"
    by (simp add: isChinaIP_db)
  have tie: "well_formed_db s \<and> \<not> private_target lib host lookup1 \<and>
    RoutingMode (config s) = RoutingModeBypassCN \<longrightarrow>
      (ParseIP lib host \<noteq> [] \<longrightarrow>
         shouldBypassProxy lib s host lookup1 lookup2 = db_contains lib s host) \<and>
      (ParseIP lib host = [] \<longrightarrow>
         (\<forall>ips. lookup2 = Some ips \<longrightarrow>
            shouldBypassProxy lib s host lookup1 lookup2 =
              (\<exists>ip \<in> set ips. db_contains lib s (IPString lib ip))))"
  proof (intro impI, elim conjE)
    assume wf: "well_formed_db s" and np: "\<not> private_target lib host lookup1"
      and cn: "RoutingMode (config s) = RoutingModeBypassCN"
    have eq: "isChinaIP lib s q = db_contains lib s q" for q by (rule isChinaIP_db[OF wf])
    from m np cn show "(ParseIP lib host \<noteq> [] \<longrightarrow>
         shouldBypassProxy lib s host lookup1 lookup2 = db_contains lib s host) \<and>
      (ParseIP lib host = [] \<longrightarrow>
         (\<forall>ips. lookup2 = Some ips \<longrightarrow>
            shouldBypassProxy lib s host lookup1 lookup2 =
              (\<exists>ip \<in> set ips. db_contains lib s (IPString lib ip))))"
      unfolding eq by blast
  qed
  from m db tie show ?thesis by (intro conjI) blast+
qed

theorem shouldBypassProxy_decision_witness:
  "shouldBypassProxy stdlib (cn_routing ''none'') ''8.8.8.8'' None None \<and>
   shouldBypassProxy stdlib (cn_routing ''global'') ''192.168.1.10'' None None \<and>
   \<not> shouldBypassProxy stdlib (cn_routing ''global'') ''1.1.1.1'' None None \<and>
   well_formed_db dual_routing \<and>
   db_contains stdlib dual_routing ''1.1.1.1'' \<and>
   shouldBypassProxy stdlib dual_routing ''1.1.1.1'' None None \<and>
   \<not> db_contains stdlib dual_routing ''8.8.8.8'' \<and>
   \<not> shouldBypassProxy stdlib dual_routing ''8.8.8.8'' None None \<and>
   db_contains stdlib dual_routing ''::1'' \<and>
   isChinaIP stdlib dual_routing ''::1'' \<and>
   shouldBypassProxy stdlib dual_routing ''example.com'' mixed_answer mixed_answer \<and>
   \<not> shouldBypassProxy stdlib dual_routing ''example.com'' None None"
proof -
  have c1: "shouldBypassProxy stdlib (cn_routing ''none'') ''8.8.8.8'' None None"
    using shouldBypassProxy_decision[of "cn_routing ''none''" stdlib "''8.8.8.8''" None None]
    by (simp add: cn_routing_mode RoutingModeNone_def)
  have p2: "private_target stdlib ''192.168.1.10'' None" by code_simp
  have c2: "shouldBypassProxy stdlib (cn_routing ''global'') ''192.168.1.10'' None None"
    using shouldBypassProxy_decision[of "cn_routing ''global''" stdlib "''192.168.1.10''" None None]
      p2 by blast
  have p4: "\<not> private_target stdlib ''1.1.1.1'' None" by code_simp
  have c4: "\<not> shouldBypassProxy stdlib (cn_routing ''global'') ''1.1.1.1'' None None"
    using shouldBypassProxy_decision[of "cn_routing ''global''" stdlib "''1.1.1.1''" None None]
      p4 by (simp add: cn_routing_mode RoutingModeGlobal_def)
  have wf: "well_formed_db dual_routing" by code_simp
  have mode: "RoutingMode (config dual_routing) = RoutingModeBypassCN" by code_simp
  have l5: "ParseIP stdlib ''1.1.1.1'' \<noteq> []" by code_simp
  have d5: "db_contains stdlib dual_routing ''1.1.1.1''" by code_simp
  note t5 = shouldBypassProxy_decision[of dual_routing stdlib "''1.1.1.1''" None None]
  have c5: "shouldBypassProxy stdlib dual_routing ''1.1.1.1'' None None"
    using t5 wf mode p4 l5 d5 by blast
  have p6: "\<not> private_target stdlib ''8.8.8.8'' None" by code_simp
  have l6: "ParseIP stdlib ''8.8.8.8'' \<noteq> []" by code_simp
  have d6: "\<not> db_contains stdlib dual_routing ''8.8.8.8''" by code_simp
  note t6 = shouldBypassProxy_decision[of dual_routing stdlib "''8.8.8.8''" None None]
  have c6: "\<not> shouldBypassProxy stdlib dual_routing ''8.8.8.8'' None None"
    using t6 wf mode p6 l6 d6 by blast
  have d9: "db_contains stdlib dual_routing ''::1''" by code_simp
  have c9: "isChinaIP stdlib dual_routing ''::1''"
    using t6 wf d9 by blast
  have p7: "\<not> private_target stdlib ''example.com'' mixed_answer" by code_simp
  have l7: "ParseIP stdlib ''example.com'' = []" by code_simp
  have d7: "\<exists>ip \<in> set [parseIP ''1.2.3.4'', parseIP ''114.114.114.114''].
              db_contains stdlib dual_routing (IPString stdlib ip)" by code_simp
  note t7 = shouldBypassProxy_decision[of dual_routing stdlib "''example.com''"
        mixed_answer mixed_answer]
  have c7: "shouldBypassProxy stdlib dual_routing ''example.com'' mixed_answer mixed_answer"
    using t7 wf mode p7 l7 d7 unfolding mixed_answer_def by blast
  have p8: "\<not> private_target stdlib ''example.com'' None" by code_simp
  note t8 = shouldBypassProxy_decision[of dual_routing stdlib "''example.com''" None None]
  have c8: "\<not> shouldBypassProxy stdlib dual_routing ''example.com'' None None"
    using t8 mode p8 l7 by blast
  show ?thesis
    by (intro conjI) (rule c1, rule c2, rule c4, rule wf, rule d5, rule c5, rule d6, rule c6,
        rule d9, rule c9, rule c7, rule c8)
qed

text \<open>
  The loader sorts the ranges by start and does not merge them.  From a list file whose
  second line overlaps the two others it loads three ranges, one of which contains
  8.8.8.8; the binary search looks at the two others only, and in mode \<open>bypass_cn\<close> the
  address goes to the relay.
\<close>

theorem overlapping_ranges_hide_address:
  "loadChinaIPList stdlib overlapping_list_file = Inr (chinaIPRanges overlapping_routing) \<and>
   RoutingMode (config overlapping_routing) = RoutingModeBypassCN \<and>
   ParseIP stdlib ''8.8.8.8'' \<noteq> [] \<and>
   db_contains stdlib overlapping_routing ''8.8.8.8'' \<and>
   \<not> isChinaIP stdlib overlapping_routing ''8.8.8.8'' \<and>
   \<not> shouldBypassProxy stdlib overlapping_routing ''8.8.8.8'' None None"
proof -
  have a: "loadChinaIPList stdlib overlapping_list_file = Inr (chinaIPRanges overlapping_routing)"
    by code_simp
  have b: "RoutingMode (config overlapping_routing) = RoutingModeBypassCN" by code_simp
  have c: "ParseIP stdlib ''8.8.8.8'' \<noteq> []" by code_simp
  have d: "db_contains stdlib overlapping_routing ''8.8.8.8''" by code_simp
  have e: "\<not> isChinaIP stdlib overlapping_routing ''8.8.8.8''" by code_simp
  have f: "\<not> shouldBypassProxy stdlib overlapping_routing ''8.8.8.8'' None None" by code_simp
  show ?thesis by (intro conjI) (rule a, rule b, rule c, rule d, rule e, rule f)
qed

lemma parseRangeLine_zero: "converts_to_zero lib text \<Longrightarrow> parseRangeLine lib text = None"
  by (auto simp: converts_to_zero_def parseRangeLine_def Let_def)

lemma parseRangeLine_nonzero:
  "parseRangeLine lib text = Some r \<Longrightarrow> start r \<noteq> 0 \<and> end' r \<noteq> 0 \<and> start r \<le> end' r"
  by (auto simp: parseRangeLine_def Let_def split: if_splits)

lemma map_filter_drop:
  "(\<And>x. P x \<Longrightarrow> f x = None) \<Longrightarrow>
   List.map_filter f (filter (\<lambda>x. \<not> P x) xs) = List.map_filter f xs"
  by (induction xs) (auto simp: List.map_filter_simps split: option.splits)

lemma set_map_filter: "set (List.map_filter f xs) = {y. \<exists>x \<in> set xs. f x = Some y}"
  by (induction xs) (auto simp: List.map_filter_simps split: option.splits)

text \<open>
  Claim C10.  \<open>isChinaIP\<close> is false for a query that does not parse, and false for an
  IPv4 address whose 32-bit value is 0, whatever ranges are loaded.  The IPv4 loader
  drops every line whose start or end address converts to 0: such a line parses to
  nothing, the list loaded from a file equals the list loaded from the file without
  these lines, and no range the loader keeps starts or ends at 0 (before the sort, and
  after it when the sort returns the ranges it was given).
\<close>

theorem isChinaIP_never_zero:
  "(ParseIP lib q = [] \<longrightarrow> \<not> isChinaIP lib s q) \<and>
   (To4 (ParseIP lib q) \<noteq> [] \<and> ipToUint32 (ParseIP lib q) = 0 \<longrightarrow> \<not> isChinaIP lib s q) \<and>
   (converts_to_zero lib text \<longrightarrow> parseRangeLine lib text = None) \<and>
   loadChinaIPList lib lines =
     loadChinaIPList lib (filter (\<lambda>l. \<not> converts_to_zero lib l) lines) \<and>
   (\<forall>r \<in> set (List.map_filter (parseRangeLine lib) lines). start r \<noteq> 0 \<and> end' r \<noteq> 0) \<and>
   (set (SortSlice lib (List.map_filter (parseRangeLine lib) lines)) =
      set (List.map_filter (parseRangeLine lib) lines) \<longrightarrow>
    (\<forall>rs. loadChinaIPList lib lines = Inr rs \<longrightarrow>
       (\<forall>r \<in> set rs. start r \<noteq> 0 \<and> end' r \<noteq> 0)))"
proof -
  have a: "ParseIP lib q = [] \<longrightarrow> \<not> isChinaIP lib s q"
    by (simp add: isChinaIP_def)
  have b: "To4 (ParseIP lib q) \<noteq> [] \<and> ipToUint32 (ParseIP lib q) = 0 \<longrightarrow>
             \<not> isChinaIP lib s q"
    by (simp add: isChinaIP_def Let_def)
  have c: "converts_to_zero lib text \<longrightarrow> parseRangeLine lib text = None"
    by (simp add: parseRangeLine_zero)
  have d: "loadChinaIPList lib lines =
     loadChinaIPList lib (filter (\<lambda>l. \<not> converts_to_zero lib l) lines)"
    by (simp add: loadChinaIPList_def
          map_filter_drop[of "converts_to_zero lib", OF parseRangeLine_zero])
  have e: "\<forall>r \<in> set (List.map_filter (parseRangeLine lib) lines). start r \<noteq> 0 \<and> end' r \<noteq> 0"
    using parseRangeLine_nonzero by (auto simp: set_map_filter)
  have f: "set (SortSlice lib (List.map_filter (parseRangeLine lib) lines)) =
      set (List.map_filter (parseRangeLine lib) lines) \<longrightarrow>
    (\<forall>rs. loadChinaIPList lib lines = Inr rs \<longrightarrow>
       (\<forall>r \<in> set rs. start r \<noteq> 0 \<and> end' r \<noteq> 0))"
    using e by (auto simp: loadChinaIPList_def Let_def split: if_splits)
  from a b c d e f show ?thesis by blast
qed

theorem isChinaIP_never_zero_witness:
  "ParseIP stdlib ''example.com'' = [] \<and>
   \<not> isChinaIP stdlib zero_range_routing ''example.com'' \<and>
   To4 (ParseIP stdlib ''0.0.0.0'') \<noteq> [] \<and>
   ipToUint32 (ParseIP stdlib ''0.0.0.0'') = 0 \<and>
   \<not> isChinaIP stdlib zero_range_routing ''0.0.0.0'' \<and>
   converts_to_zero stdlib ''0.0.0.0 0.0.0.255'' \<and>
   parseRangeLine stdlib ''0.0.0.0 0.0.0.255'' = None \<and>
   loadChinaIPList stdlib cn_list_file =
     loadChinaIPList stdlib [''# china ip list'', '''', ''1.0.0.0 1.255.255.255''] \<and>
   loadChinaIPList stdlib cn_list_file = Inr [\<lparr>start = 0x01000000, end' = 0x01FFFFFF\<rparr>]"
proof -
  have h1: "ParseIP stdlib ''example.com'' = []" by code_simp
  have h2: "To4 (ParseIP stdlib ''0.0.0.0'') \<noteq> []" by code_simp
  have h3: "ipToUint32 (ParseIP stdlib ''0.0.0.0'') = 0" by code_simp
  have h4: "converts_to_zero stdlib ''0.0.0.0 0.0.0.255''" by code_simp
  have f: "filter (\<lambda>l. \<not> converts_to_zero stdlib l) cn_list_file =
             [''# china ip list'', '''', ''1.0.0.0 1.255.255.255'']" by code_simp
  have l: "loadChinaIPList stdlib cn_list_file =
             Inr [\<lparr>start = 0x01000000, end' = 0x01FFFFFF\<rparr>]" by code_simp
  note t1 = isChinaIP_never_zero[of stdlib "''example.com''" zero_range_routing
              "''0.0.0.0 0.0.0.255''" cn_list_file]
  note t2 = isChinaIP_never_zero[of stdlib "''0.0.0.0''" zero_range_routing
              "''0.0.0.0 0.0.0.255''" cn_list_file]
  show ?thesis using t1 t2 h1 h2 h3 h4 f l by simp
qed

section \<open>Theorems: the relay server\<close>

lemma Index_None_iff: "Index s c = None \<longleftrightarrow> c \<notin> set s"
  by (induction s) auto


lemma HasPrefix_append: "HasPrefix (p @ s) p"
  by (simp add: HasPrefix_def)




text \<open>
  Claim C4, as amended.  A \<open>CONNECT:\<close> text frame without the separator \<open>|\<close> is
  answered with the text frame \<open>ERROR:invalid CONNECT format\<close> and the session goes on to
  the next message.  A \<open>CONNECT:\<close> frame with a separator whose \<open>connectToRemote\<close>
  fails (invalid address, failed dial, failed write of the first frame) is answered with
  \<open>ERROR:\<close> and the reason, and the session returns.  A text frame that is not a
  \<open>CONNECT:\<close> frame, not a \<open>DATA:\<close> frame and not \<open>CLOSE\<close> gets no answer, and
  the session goes on to the next message.
\<close>

theorem text_frame_errors:
  "(HasPrefix msg ''CONNECT:'' \<and> CHR ''|'' \<notin> set (drop 8 msg) \<longrightarrow>
      handleMessage env st (TextMessage msg) =
        (Continue, st, [WsWriteText ''ERROR:invalid CONNECT format'']) \<and>
      sessionLoop env st ((TextMessage msg, False) # ms) =
        (fst (sessionLoop env st ms),
         WsWriteText ''ERROR:invalid CONNECT format'' # snd (sessionLoop env st ms))) \<and>
   (HasPrefix msg ''CONNECT:'' \<and> Index (drop 8 msg) CHR ''|'' = Some sep \<and>
    connectToRemote env st (take sep (drop 8 msg)) (drop (sep + 1) (drop 8 msg)) =
      (Some err, st', effs) \<longrightarrow>
      handleMessage env st (TextMessage msg) =
        (Return, st', effs @ [WsWriteText (''ERROR:'' @ err)]) \<and>
      sessionLoop env st ((TextMessage msg, False) # ms) =
        (st', effs @ [WsWriteText (''ERROR:'' @ err)])) \<and>
   (\<not> HasPrefix msg ''CONNECT:'' \<and> \<not> HasPrefix msg ''DATA:'' \<and> msg \<noteq> ''CLOSE'' \<longrightarrow>
      handleMessage env st (TextMessage msg) = (Continue, st, []) \<and>
      sessionLoop env st ((TextMessage msg, False) # ms) = sessionLoop env st ms)"
proof -
  have a: "HasPrefix msg ''CONNECT:'' \<and> CHR ''|'' \<notin> set (drop 8 msg) \<longrightarrow>
      handleMessage env st (TextMessage msg) =
        (Continue, st, [WsWriteText ''ERROR:invalid CONNECT format''])"
    by (simp add: handleMessage_def Let_def Index_None_iff[symmetric])
  have b: "HasPrefix msg ''CONNECT:'' \<and> Index (drop 8 msg) CHR ''|'' = Some sep \<and>
    connectToRemote env st (take sep (drop 8 msg)) (drop (sep + 1) (drop 8 msg)) =
      (Some err, st', effs) \<longrightarrow>
      handleMessage env st (TextMessage msg) =
        (Return, st', effs @ [WsWriteText (''ERROR:'' @ err)])"
    by (simp add: handleMessage_def Let_def)
  have c: "\<not> HasPrefix msg ''CONNECT:'' \<and> \<not> HasPrefix msg ''DATA:'' \<and> msg \<noteq> ''CLOSE'' \<longrightarrow>
      handleMessage env st (TextMessage msg) = (Continue, st, [])"
    by (simp add: handleMessage_def)
  show ?thesis
    using a b c by (auto simp: split_beta split: prod.splits)
qed

theorem text_frame_errors_witness:
  "HasPrefix ''CONNECT:example.com:443'' ''CONNECT:'' \<and>
   CHR ''|'' \<notin> set (drop 8 ''CONNECT:example.com:443'') \<and>
   handleMessage open_net fresh_session (TextMessage ''CONNECT:example.com:443'') =
     (Continue, fresh_session, [WsWriteText ''ERROR:invalid CONNECT format'']) \<and>
   Index (drop 8 ''CONNECT:example.com|x'') CHR ''|'' = Some 11 \<and>
   connectToRemote open_net fresh_session ''example.com'' ''x'' =
     (Some ''invalid address: example.com'', fresh_session, []) \<and>
   handleMessage open_net fresh_session (TextMessage ''CONNECT:example.com|x'') =
     (Return, fresh_session, [WsWriteText ''ERROR:invalid address: example.com'']) \<and>
   handleMessage open_net fresh_session (TextMessage ''HELLO'') =
     (Continue, fresh_session, [])"
proof -
  have h1: "HasPrefix ''CONNECT:example.com:443'' ''CONNECT:''"
    by (simp add: HasPrefix_def)
  have h2: "CHR ''|'' \<notin> set (drop 8 ''CONNECT:example.com:443'')" by simp
  have h3: "HasPrefix ''CONNECT:example.com|x'' ''CONNECT:''"
    by (simp add: HasPrefix_def)
  have h4: "Index (drop 8 ''CONNECT:example.com|x'') CHR ''|'' = Some 11" by simp
  have h5: "connectToRemote open_net fresh_session ''example.com'' ''x'' =
     (Some ''invalid address: example.com'', fresh_session, [])"
    by (simp add: connectToRemote_def parseAddress_def HasPrefix_def)
  have h6: "\<not> HasPrefix ''HELLO'' ''CONNECT:'' \<and> \<not> HasPrefix ''HELLO'' ''DATA:'' \<and>
            ''HELLO'' \<noteq> ''CLOSE''"
    by (simp add: HasPrefix_def)
  note t1 = text_frame_errors[where msg = "''CONNECT:example.com:443''" and env = open_net
              and st = fresh_session]
  note t2 = text_frame_errors[where msg = "''CONNECT:example.com|x''" and env = open_net
              and st = fresh_session and sep = 11
              and err = "''invalid address: example.com''" and st' = fresh_session
              and effs = "[]"]
  note t3 = text_frame_errors[where msg = "''HELLO''" and env = open_net
              and st = fresh_session]
  show ?thesis using t1 t2 t3 h1 h2 h3 h4 h5 h6 by simp
qed

text \<open>
  The claim as stated fails: the session below gets no answer to \<open>HELLO\<close>, answers the
  \<open>CONNECT\<close> frame without separator with an error, and still serves the well-formed
  \<open>CONNECT\<close> frame that follows.
\<close>

theorem session_continues_after_bad_frames:
  "sessionLoop open_net fresh_session
     [(TextMessage ''HELLO'', False),
      (TextMessage ''CONNECT:example.com:443'', False),
      (TextMessage (connectMsg ''example.com:443'' ''HI''), False)] =
   (\<lparr>remoteConn = True\<rparr>,
    [WsWriteText ''ERROR:invalid CONNECT format'',
     Dial ''example.com:443'', RemoteWrite ''HI'', WsWriteText ''CONNECTED'', StartPump])"
  by code_simp

section \<open>Theorems: the client\<close>

subsection \<open>Start and dial\<close>







subsection \<open>Deadlines of the client socket\<close>

lemma foldl_no_deadline:
  "\<forall>e \<in> set effs. \<not> deadline_effect e \<Longrightarrow> foldl applyEffect d effs = d"
proof (induction effs arbitrary: d)
  case Nil
  then show ?case by simp
next
  case (Cons e effs)
  then have "applyEffect d e = d" by (cases e) auto
  with Cons show ?case by simp
qed

lemma socks5Request_writes:
  "set (fst (socks5Request lib command atyp stream)) \<subseteq> range ConnWrite"
  by (auto simp: socks5Request_def Let_def split: socks_address.splits option.splits prod.splits)

lemma socks5Request_writesD:
  "socks5Request lib command atyp stream = (effs, nxt) \<Longrightarrow> e \<in> set effs \<Longrightarrow>
   e \<in> range ConnWrite"
  using socks5Request_writes[of lib command atyp stream] by auto

lemma handleSOCKS5_writes:
  "set (fst (handleSOCKS5 lib env b stream)) \<subseteq> range ConnWrite"
  by (auto simp: handleSOCKS5_def split: option.splits prod.splits
           dest: socks5Request_writesD)

lemma httpRequest_writes:
  "set (fst (httpRequest lib m u v hs r)) \<subseteq> range ConnWrite"
  by (auto simp: httpRequest_def Let_def)

lemma handleHTTP_writes:
  "set (fst (handleHTTP lib stream)) \<subseteq> range ConnWrite"
  using httpRequest_writes
  by (simp add: handleHTTP_def Let_def split: option.splits prod.splits)

lemma sendErrorResponse_writes: "set (sendErrorResponse mode) \<subseteq> range ConnWrite"
  by (auto simp: sendErrorResponse_def)

lemma sendSuccessResponse_writes: "set (snd (sendSuccessResponse env mode)) \<subseteq> range ConnWrite"
  by (auto simp: sendSuccessResponse_def)

lemma direct_no_deadline:
  "e \<in> set (snd (handleDirectConnection lib env t m f h)) \<Longrightarrow> \<not> deadline_effect e"
  using sendErrorResponse_writes[of m] sendSuccessResponse_writes[of env m]
  by (auto simp: handleDirectConnection_def Let_def split: option.splits prod.splits if_splits)

lemma tunnelHandshake_no_direct:
  "RelayDirect \<notin> set (snd (tunnelHandshake env t m f h))"
  using sendErrorResponse_writes[of m] sendSuccessResponse_writes[of env m]
  by (auto simp: tunnelHandshake_def Let_def split: option.splits prod.splits sum.splits if_splits)

lemma handleTunnel_bypass:
  "shouldBypassProxy lib s (case SplitHostPort lib t of None \<Rightarrow> t | Some (host, port) \<Rightarrow> host)
      (privateLookup env) (chinaLookup env) \<Longrightarrow>
   snd (handleTunnel lib s env t m f) =
     StatsConnection (case SplitHostPort lib t of None \<Rightarrow> t | Some (host, port) \<Rightarrow> host) #
     snd (handleDirectConnection lib env t m f
            (case SplitHostPort lib t of None \<Rightarrow> t | Some (host, port) \<Rightarrow> host))"
  by (simp add: handleTunnel_def Let_def split: prod.splits)

lemma handleTunnel_relay:
  "\<not> shouldBypassProxy lib s (case SplitHostPort lib t of None \<Rightarrow> t | Some (host, port) \<Rightarrow> host)
      (privateLookup env) (chinaLookup env) \<Longrightarrow>
   snd (handleTunnel lib s env t m f) =
     (case relayDialError env of
        Some err \<Rightarrow>
          [StatsConnection (case SplitHostPort lib t of None \<Rightarrow> t | Some (host, port) \<Rightarrow> host),
           DialRelay] @ sendErrorResponse m
      | None \<Rightarrow>
          [StatsConnection (case SplitHostPort lib t of None \<Rightarrow> t | Some (host, port) \<Rightarrow> host),
           DialRelay, StartPing, SetDeadline None] @
          snd (earlyFirstFrame env m f) @
          snd (tunnelHandshake env t m (fst (earlyFirstFrame env m f))
                 (case SplitHostPort lib t of None \<Rightarrow> t | Some (host, port) \<Rightarrow> host)))"
  by (simp add: handleTunnel_def Let_def split: prod.splits option.splits)

lemma earlyFirstFrame_no_direct: "RelayDirect \<notin> set (snd (earlyFirstFrame env m f))"
  by (simp add: earlyFirstFrame_def)

lemma handleTunnel_direct:
  assumes "RelayDirect \<in> set (snd (handleTunnel lib s env t m f))"
  shows "\<forall>e \<in> set (snd (handleTunnel lib s env t m f)). \<not> deadline_effect e"
proof (cases "shouldBypassProxy lib s (case SplitHostPort lib t of None \<Rightarrow> t | Some (host, port) \<Rightarrow> host)
                (privateLookup env) (chinaLookup env)")
  case True
  show ?thesis
    unfolding handleTunnel_bypass[OF True] using direct_no_deadline by auto
next
  case False
  have "RelayDirect \<notin> set (snd (handleTunnel lib s env t m f))"
    unfolding handleTunnel_relay[OF False]
    using tunnelHandshake_no_direct earlyFirstFrame_no_direct sendErrorResponse_writes[of m]
    by (auto split: option.splits)
  with assms show ?thesis by simp
qed

lemma tunnelHandshake_no_deadline:
  "e \<in> set (snd (tunnelHandshake env t m f h)) \<Longrightarrow> \<not> deadline_effect e"
  using sendErrorResponse_writes[of m] sendSuccessResponse_writes[of env m]
  by (auto simp: tunnelHandshake_def Let_def split: option.splits prod.splits sum.splits if_splits)

lemma direct_no_relay_tunnel:
  "RelayTunnel \<notin> set (snd (handleDirectConnection lib env t m f h))"
  using sendErrorResponse_writes[of m] sendSuccessResponse_writes[of env m]
  by (auto simp: handleDirectConnection_def Let_def split: option.splits prod.splits if_splits)

lemma earlyFirstFrame_deadlines:
  "foldl applyEffect \<lparr>readDeadline = None, writeDeadline = None\<rparr> (snd (earlyFirstFrame env m f)) =
     \<lparr>readDeadline = None, writeDeadline = None\<rparr>"
  by (simp add: earlyFirstFrame_def)

lemma handleTunnel_relay_clears:
  assumes "RelayTunnel \<in> set (snd (handleTunnel lib s env t m f))"
  shows "foldl applyEffect d (snd (handleTunnel lib s env t m f)) =
           \<lparr>readDeadline = None, writeDeadline = None\<rparr>"
proof (cases "shouldBypassProxy lib s (case SplitHostPort lib t of None \<Rightarrow> t | Some (host, port) \<Rightarrow> host)
                (privateLookup env) (chinaLookup env)")
  case True
  have "RelayTunnel \<notin> set (snd (handleTunnel lib s env t m f))"
    unfolding handleTunnel_bypass[OF True] using direct_no_relay_tunnel by simp
  with assms show ?thesis by simp
next
  case False
  show ?thesis
  proof (cases "relayDialError env")
    case (Some err)
    have "RelayTunnel \<notin> set (snd (handleTunnel lib s env t m f))"
      unfolding handleTunnel_relay[OF False] using Some sendErrorResponse_writes[of m] by auto
    with assms show ?thesis by simp
  next
    case None
    have hs: "\<And>d'. foldl applyEffect d'
             (snd (tunnelHandshake env t m (fst (earlyFirstFrame env m f))
                 (case SplitHostPort lib t of None \<Rightarrow> t | Some (host, port) \<Rightarrow> host))) = d'"
      by (rule foldl_no_deadline) (auto dest: tunnelHandshake_no_deadline)
    show ?thesis
      unfolding handleTunnel_relay[OF False]
      using None by (simp add: hs earlyFirstFrame_deadlines)
  qed
qed

lemma handleConnection_Nil:
  "snd (handleConnection lib s env []) = [SetDeadline (Some (now0 env + connectionDeadline))]"
  by (simp add: handleConnection_def)

lemma handleConnection_Cons:
  "protocolSwitch lib env b rest = (effs, nxt) \<Longrightarrow>
   snd (handleConnection lib s env (b # rest)) =
     SetDeadline (Some (now0 env + connectionDeadline)) # effs @
     (case nxt of
        Tunnel target mode firstFrame \<Rightarrow> snd (handleTunnel lib s env target mode firstFrame)
      | UDP \<Rightarrow> [UDPAssociate]
      | Done \<Rightarrow> [])"
  by (cases nxt) (simp_all add: handleConnection_def split: prod.splits)

lemma protocolSwitch_writes:
  "set (fst (protocolSwitch lib env b rest)) \<subseteq> range ConnWrite"
proof (cases "b = CHR 0x05")
  case True
  then show ?thesis
    using handleSOCKS5_writes[of lib env b rest] by (simp add: protocolSwitch_def)
next
  case False
  show ?thesis
  proof (cases "b \<in> set ''CGPHDOT''")
    case True
    with False show ?thesis
      using handleHTTP_writes[of lib "b # rest"] by (simp add: protocolSwitch_def del: set_simps)
  next
    case f: False
    with False show ?thesis by (simp add: protocolSwitch_def)
  qed
qed


text \<open>
  In the tunnel path the deadline is cleared: when the forwarding through the relay
  starts, the client socket has no deadline.
\<close>

lemma tunnel_relay_clears_deadline:
  assumes "RelayTunnel \<in> set (snd (handleConnection lib s env stream))"
  shows "deadlinesAfter (snd (handleConnection lib s env stream)) =
           \<lparr>readDeadline = None, writeDeadline = None\<rparr>"
proof (cases stream)
  case Nil
  with assms show ?thesis by (simp add: handleConnection_Nil)
next
  case (Cons b rest)
  obtain effs nxt where h: "protocolSwitch lib env b rest = (effs, nxt)"
    by (cases "protocolSwitch lib env b rest") blast
  have w: "set effs \<subseteq> range ConnWrite"
    using protocolSwitch_writes[of lib env b rest] h by simp
  have nr: "RelayTunnel \<notin> set effs" using w by auto
  show ?thesis
  proof (cases nxt)
    case Done
    with assms Cons nr show ?thesis by (simp add: handleConnection_Cons[OF h])
  next
    case UDP
    with assms Cons nr show ?thesis by (simp add: handleConnection_Cons[OF h])
  next
    case (Tunnel target mode firstFrame)
    have e: "snd (handleConnection lib s env stream) =
               SetDeadline (Some (now0 env + connectionDeadline)) #
               effs @ snd (handleTunnel lib s env target mode firstFrame)"
      using Cons Tunnel by (simp add: handleConnection_Cons[OF h])
    have "RelayTunnel \<in> set (snd (handleTunnel lib s env target mode firstFrame))"
      using assms nr unfolding e by simp
    then show ?thesis
      unfolding e deadlinesAfter_def
      by (simp add: handleTunnel_relay_clears)
  qed
qed


text \<open>
  Claim C9 fails in the direct path.  Whenever \<open>handleConnection\<close> reaches the start of
  the direct forwarding, the deadline of 30 seconds that it set after the accept is still
  the read and the write deadline of the client socket: \<open>handleDirectConnection\<close> never
  clears it, as \<open>handleTunnel\<close> does before it talks to the relay.
\<close>

theorem direct_relay_keeps_deadline:
  assumes "RelayDirect \<in> set (snd (handleConnection lib s env stream))"
  shows "deadlinesAfter (snd (handleConnection lib s env stream)) =
           \<lparr>readDeadline = Some (now0 env + connectionDeadline),
            writeDeadline = Some (now0 env + connectionDeadline)\<rparr>"
proof (cases stream)
  case Nil
  with assms show ?thesis by (simp add: handleConnection_Nil)
next
  case (Cons b rest)
  obtain effs nxt where h: "protocolSwitch lib env b rest = (effs, nxt)"
    by (cases "protocolSwitch lib env b rest") blast
  have w: "set effs \<subseteq> range ConnWrite"
    using protocolSwitch_writes[of lib env b rest] h by simp
  then have nd: "\<forall>e \<in> set effs. \<not> deadline_effect e" by auto
  have nr: "RelayDirect \<notin> set effs" using w by auto
  show ?thesis
  proof (cases nxt)
    case Done
    with assms Cons nr show ?thesis by (simp add: handleConnection_Cons[OF h])
  next
    case UDP
    with assms Cons nr show ?thesis by (simp add: handleConnection_Cons[OF h])
  next
    case (Tunnel target mode firstFrame)
    have e: "snd (handleConnection lib s env stream) =
               SetDeadline (Some (now0 env + connectionDeadline)) #
               effs @ snd (handleTunnel lib s env target mode firstFrame)"
      using Cons Tunnel by (simp add: handleConnection_Cons[OF h])
    have "RelayDirect \<in> set (snd (handleTunnel lib s env target mode firstFrame))"
      using assms nr unfolding e by simp
    then have nt: "\<forall>e \<in> set (snd (handleTunnel lib s env target mode firstFrame)).
                    \<not> deadline_effect e"
      by (rule handleTunnel_direct)
    show ?thesis
      unfolding e deadlinesAfter_def
      by (simp add: foldl_no_deadline[OF nd] foldl_no_deadline[OF nt])
  qed
qed


theorem direct_relay_keeps_deadline_witness:
  "RelayDirect \<in> set (snd (handleConnection stdlib (cn_routing ''none'') calm
                              socks5_connect_example)) \<and>
   snd (handleConnection stdlib (cn_routing ''none'') calm socks5_connect_example) =
     [SetDeadline (Some 1030000000000), ConnWrite [CHR 0x05, CHR 0x00],
      StatsConnection ''example.com'', DialTarget ''example.com:443'',
      ConnWrite (socks5Reply 0), RelayDirect] \<and>
   deadlinesAfter (snd (handleConnection stdlib (cn_routing ''none'') calm
                          socks5_connect_example)) =
     \<lparr>readDeadline = Some 1030000000000, writeDeadline = Some 1030000000000\<rparr>"
proof -
  have e: "snd (handleConnection stdlib (cn_routing ''none'') calm socks5_connect_example) =
    [SetDeadline (Some 1030000000000), ConnWrite [CHR 0x05, CHR 0x00],
     StatsConnection ''example.com'', DialTarget ''example.com:443'',
     ConnWrite (socks5Reply 0), RelayDirect]"
    by code_simp
  have r: "RelayDirect \<in> set (snd (handleConnection stdlib (cn_routing ''none'') calm
                                     socks5_connect_example))"
    unfolding e by simp
  have n: "now0 calm + connectionDeadline = 1030000000000" by code_simp
  have d: "deadlinesAfter (snd (handleConnection stdlib (cn_routing ''none'') calm
                          socks5_connect_example)) =
     \<lparr>readDeadline = Some 1030000000000, writeDeadline = Some 1030000000000\<rparr>"
    using direct_relay_keeps_deadline[OF r] unfolding n .
  show ?thesis by (intro conjI) (rule r, rule e, rule d)
qed

subsection \<open>The CONNECT frame\<close>





subsection \<open>HTTP proxy requests\<close>

text \<open>
  What \<open>handleHTTP\<close> hands to the tunnel for a proxy request with a target: the request
  line with the path, the header lines that are kept, an empty line and the body; the
  target gets the port 80 when it contains no colon.
\<close>

lemma proxy_request_first_frame:
  assumes "method \<in> set proxyMethods"
    and "fst (proxyTarget (headersOf lib headerLines) requestURL) \<noteq> []"
  shows "httpRequest lib method requestURL httpVersion headerLines reader =
           ([], Tunnel (let target = fst (proxyTarget (headersOf lib headerLines) requestURL)
                        in if CHR '':'' \<in> set target then target else target @ '':80'')
                       modeHTTPProxy
                       (method @ '' '' @ snd (proxyTarget (headersOf lib headerLines) requestURL) @
                        '' '' @ httpVersion @ CRLF @
                        concat (map (\<lambda>line. line @ CRLF) (filter (keptHeader lib) headerLines)) @
                        CRLF @
                        requestBody lib (headersOf lib headerLines) reader))"
proof -
  have "method \<noteq> ''CONNECT''" using assms(1) by (auto simp: proxyMethods_def)
  then show ?thesis
    using assms
    by (simp add: httpRequest_def Let_def requestHead_def Contains_def Index_None_iff)
qed

lemma requestBody_cases:
  "requestBody lib headers reader =
     (if headerValue headers ''content-length'' \<noteq> [] \<and>
         0 < SscanfInt lib (headerValue headers ''content-length'') \<and>
         SscanfInt lib (headerValue headers ''content-length'') < 10485760 \<and>
         nat (SscanfInt lib (headerValue headers ''content-length'')) \<le> length reader
      then take (nat (SscanfInt lib (headerValue headers ''content-length''))) reader
      else [])"
  by (simp add: requestBody_def Let_def readFull_def)

text \<open>
  Claim C8 fails for a target that is an IPv6 literal without a port.  The request
  \<open>GET http://[::1]/ HTTP/1.1\<close> is handed to the tunnel with the target \<open>[::1]\<close>: no
  port 80 is added, because the literal contains a colon.  The relay refuses that target
  as an invalid address, and the direct path would dial \<open>[[::1]]:80\<close>.  The request
  of the specification, \<open>GET http://h/p HTTP/1.1\<close>, gets the target \<open>h:80\<close> and the
  first frame without \<open>Proxy-Connection\<close>.
\<close>

theorem ipv6_literal_gets_no_default_port:
  "handleHTTP stdlib http_get_ipv6 =
     ([], Tunnel ''[::1]'' modeHTTPProxy
            (''GET / HTTP/1.1'' @ CRLF @ ''Host: [::1]'' @ CRLF @ CRLF)) \<and>
   fst (connectToRemote open_net fresh_session ''[::1]'' []) =
     Some ''invalid address: [::1]'' \<and>
   snd (handleDirectConnection stdlib calm ''[::1]'' modeHTTPProxy [] ''[::1]'') =
     [DialTarget ''[[::1]]:80'', RelayDirect] \<and>
   handleHTTP stdlib http_get_example =
     ([], Tunnel ''h:80'' modeHTTPProxy
            (''GET /p HTTP/1.1'' @ CRLF @ ''Host: h'' @ CRLF @ CRLF))"
  by code_simp

section \<open>The ECH configuration\<close>

declare skipLabels.simps [simp del] svcParams.simps [simp del] answers.simps [simp del]




























end
